theory Spec2Isabelle
  imports Complex_Main "HOL-Library.Word" "HOL-Library.Log_Nat"
begin

section \<open>The block unlocker of the pool (payouts/unlocker.go)\<close>

text \<open>
  A shallow embedding of \<^verbatim>\<open>payouts/unlocker.go\<close>. Go's \<^verbatim>\<open>int64\<close> is \<open>64 word\<close>
  (read with \<open>sint\<close>), \<^verbatim>\<open>*big.Int\<close> is \<open>int\<close>, \<^verbatim>\<open>*big.Rat\<close> is \<open>rat\<close>, a Go string is a
  list of bytes (\<open>string\<close>). A nil pointer is \<open>None\<close>. An error return is a value of the
  type \<open>error\<close>; a run-time panic is the outcome \<open>Panic\<close>.
\<close>

type_synonym int64 = "64 word"

subsection \<open>Errors and outcomes\<close>

datatype error =
    SyntaxError string  \<comment> \<open>strconv: \<^verbatim>\<open>ErrSyntax\<close> for the given input\<close>
  | RangeError string  \<comment> \<open>strconv: \<^verbatim>\<open>ErrRange\<close> for the given input\<close>
  | External string  \<comment> \<open>an error returned by the node, the SQL store or the share store\<close>
  | WrongNodeHeight int64  \<comment> \<open>line 153: the node returned no block at a height\<close>
  | UncleRetrieveError string error  \<comment> \<open>line 179: wraps the node's error\<close>
  | UncleMissing int64  \<comment> \<open>line 182: the node returned no uncle\<close>
  | TxReceiptError error  \<comment> \<open>line 245: wraps the error of the receipt fetch\<close>

datatype 'a result = Ok 'a | Fail error | Panic

subsection \<open>Strings and strconv\<close>

text \<open>
  \<^verbatim>\<open>strings.EqualFold\<close> and \<^verbatim>\<open>strings.ToLower\<close> on ASCII strings, which the hex-encoded
  hashes, nonces and addresses of the node are: only the letters A to Z are folded. (Go folds
  all of Unicode; bytes outside ASCII are compared as they are here.)
\<close>

definition toLowerASCII :: "char \<Rightarrow> char" where
  "toLowerASCII c =
     (case map_of (zip ''ABCDEFGHIJKLMNOPQRSTUVWXYZ'' ''abcdefghijklmnopqrstuvwxyz'') c of
        None \<Rightarrow> c
      | Some l \<Rightarrow> l)"

definition ToLower :: "string \<Rightarrow> string" where
  "ToLower s = map toLowerASCII s"

definition EqualFold :: "string \<Rightarrow> string \<Rightarrow> bool" where
  "EqualFold s t = (ToLower s = ToLower t)"

text \<open>\<^verbatim>\<open>strings.Replace(s, "0x", "", -1)\<close>: every occurrence of "0x", left to right,
  is removed.\<close>

fun Replace0x :: "string \<Rightarrow> string" where
  "Replace0x (a # b # rest) =
     (if a = CHR ''0'' \<and> b = CHR ''x'' then Replace0x rest else a # Replace0x (b # rest))"
| "Replace0x s = s"

text \<open>The value of a digit in \<^verbatim>\<open>strconv.ParseUint\<close>: 0 to 9, then the letters of either
  case from 10 on; \<open>None\<close> for any other byte.\<close>

definition digitVal :: "char \<Rightarrow> int option" where
  "digitVal c =
     (let n = (of_char c :: int) in
      if 48 \<le> n \<and> n \<le> 57 then Some (n - 48)
      else if 97 \<le> n \<and> n \<le> 122 then Some (n - 97 + 10)
      else if 65 \<le> n \<and> n \<le> 90 then Some (n - 65 + 10)
      else None)"

definition maxUint64 :: int where
  "maxUint64 = 2 ^ 64 - 1"

text \<open>
  The digit loop of \<^verbatim>\<open>strconv.ParseUint(s, base, 64)\<close> for an explicit base (10 or 16
  here): \<open>s0\<close> is the whole input (for the error), \<open>n\<close> the value read so far. The
  unsigned 64-bit accumulator is an \<open>int\<close>, with both overflow tests of the source
  written out: \<^verbatim>\<open>n >= cutoff\<close> where \<^verbatim>\<open>cutoff = maxUint64/base + 1\<close>, and
  \<^verbatim>\<open>n1 < n\<close> after \<^verbatim>\<open>n1 := n*base + d\<close>, which holds exactly when the sum passes
  \<^verbatim>\<open>maxUint64\<close>.
\<close>

fun ParseUint_loop :: "string \<Rightarrow> int \<Rightarrow> int \<Rightarrow> string \<Rightarrow> int \<times> error option" where
  "ParseUint_loop s0 base n [] = (n, None)"
| "ParseUint_loop s0 base n (c # cs) =
     (case digitVal c of
        None \<Rightarrow> (0, Some (SyntaxError s0))
      | Some d \<Rightarrow>
          if d \<ge> base then (0, Some (SyntaxError s0))
          else if n \<ge> maxUint64 div base + 1 then (maxUint64, Some (RangeError s0))
          else if n * base + d > maxUint64 then (maxUint64, Some (RangeError s0))
          else ParseUint_loop s0 base (n * base + d) cs)"

definition ParseUint :: "string \<Rightarrow> int \<Rightarrow> int \<times> error option" where
  "ParseUint s base =
     (if s = [] then (0, Some (SyntaxError s)) else ParseUint_loop s base 0 s)"

text \<open>
  \<^verbatim>\<open>strconv.ParseInt(s, base, 64)\<close>: an optional sign, then \<^verbatim>\<open>ParseUint\<close>. Go returns a
  value and an error: a syntax error comes with 0, a range error with the nearest
  \<^verbatim>\<open>int64\<close>.
\<close>

definition ParseInt :: "string \<Rightarrow> int \<Rightarrow> int \<times> error option" where
  "ParseInt s base =
     (if s = [] then (0, Some (SyntaxError s))
      else
        let neg = (hd s = CHR ''-'');
            s1 = (if hd s = CHR ''+'' \<or> hd s = CHR ''-'' then tl s else s);
            (un, err) = ParseUint s1 base
        in if err \<noteq> None \<and> err \<noteq> Some (RangeError s1) then (0, Some (SyntaxError s))
           else if \<not> neg \<and> un \<ge> 2 ^ 63 then (2 ^ 63 - 1, Some (RangeError s))
           else if neg \<and> un > 2 ^ 63 then (- (2 ^ 63), Some (RangeError s))
           else (if neg then - un else un, None))"

text \<open>The parse of a block number, as \<^verbatim>\<open>handleBlock\<close>, \<^verbatim>\<open>handleUncle\<close> and both passes
  write it: \<^verbatim>\<open>strconv.ParseInt(strings.Replace(number, "0x", "", -1), 16, 64)\<close>.\<close>

definition parseNumber :: "string \<Rightarrow> error + int64" where
  "parseNumber number =
     (case ParseInt (Replace0x number) 16 of
        (v, None) \<Rightarrow> Inr (word_of_int v)
      | (v, Some e) \<Rightarrow> Inl e)"

text \<open>Decimal digits of a natural number (\<^verbatim>\<open>nat.utoa(10)\<close> of math/big); the number is
  an \<open>int\<close> that the callers keep non-negative.\<close>

function utoa :: "int \<Rightarrow> string" where
  "utoa n =
     (if n < 10 then [''0123456789'' ! nat n]
      else utoa (n div 10) @ [''0123456789'' ! nat (n mod 10)])"
  by pat_completeness auto
termination
  by (relation "measure nat") auto

declare utoa.simps [simp del]

text \<open>
  \<^verbatim>\<open>(*big.Rat).FloatString(0)\<close>: the decimal form of \<open>x\<close> with no digit after the point.
  With \<open>x = a / b\<close> in lowest terms, the source divides \<open>|a|\<close> by \<open>b\<close> and adds one to the
  quotient when twice the remainder reaches \<open>b\<close> ("the last digit is rounded to nearest,
  with halves rounded away from zero"); a minus sign is written when \<open>a\<close> is negative.
\<close>

definition FloatString0 :: "rat \<Rightarrow> string" where
  "FloatString0 x =
     (let (a, b) = quotient_of x;
          q = \<bar>a\<bar> div b;
          r2 = \<bar>a\<bar> mod b;
          q1 = (if b \<le> r2 + r2 then q + 1 else q)
      in (if a < 0 then ''-'' else []) @ utoa q1)"

subsection \<open>Data\<close>

text \<open>\<^verbatim>\<open>rpc.GetBlockReply\<close>, \<^verbatim>\<open>rpc.Tx\<close> and \<^verbatim>\<open>rpc.TxReceipt\<close>, with the fields the
  unlocker reads (\<open>BlockHash\<close> and \<open>BlockNonce\<close> are the reply's \<^verbatim>\<open>Hash\<close> and
  \<^verbatim>\<open>Nonce\<close>, \<open>TxHash\<close> and \<open>TxGasPrice\<close> the transaction's \<^verbatim>\<open>Hash\<close> and
  \<^verbatim>\<open>GasPrice\<close>).\<close>

record Tx =
  TxGasPrice :: string
  TxHash :: string

record TxReceipt =
  GasUsed :: string

record GetBlockReply =
  Number :: string
  BlockHash :: string
  BlockNonce :: string
  SealFields :: "string list"
  Uncles :: "string list"
  Transactions :: "Tx list"

text \<open>\<^verbatim>\<open>types.BlockData\<close>: a candidate. \<^verbatim>\<open>ExtraReward\<close> is a pointer that may be nil.
  \<^verbatim>\<open>Reward\<close> is a pointer too; \<^verbatim>\<open>handleBlock\<close> and \<^verbatim>\<open>handleUncle\<close> set it before
  anything reads it, so the model holds the number.\<close>

record BlockData =
  Height :: int64
  RoundHeight :: int64
  UncleHeight :: int64
  Nonce :: string
  Hash :: string
  Orphan :: bool
  Reward :: int
  ExtraReward :: "int option"
  State :: int

subsection \<open>Matching a candidate against a reply of the node\<close>

definition matchCandidate :: "GetBlockReply \<Rightarrow> BlockData \<Rightarrow> bool" where
  "matchCandidate block candidate =
     (if length (Hash candidate) > 0 \<and> EqualFold (Hash candidate) (BlockHash block) then True
      else if length (BlockNonce block) > 0 then EqualFold (BlockNonce block) (Nonce candidate)
      else if length (SealFields block) = 2 then EqualFold (Nonce candidate) (SealFields block ! 1)
      else False)"


subsection \<open>Configuration and state of the unlocker\<close>

text \<open>\<^verbatim>\<open>UnlockerConfig\<close>, with the fields the two passes read. \<^verbatim>\<open>PoolFee\<close> is a
  \<^verbatim>\<open>float64\<close>: the model holds the rational number that the (finite) float denotes.\<close>

type_synonym float64 = rat

record UnlockerConfig =
  PoolFee :: float64
  PoolFeeAddress :: string
  Donate :: bool
  Depth :: int64
  ImmatureDepth :: int64
  KeepTxFees :: bool

definition minDepth :: int where
  "minDepth = 16"

definition donationFee :: float64 where
  "donationFee = 10"

definition donationAccount :: string where
  "donationAccount = ''0xb05146ed865f0ab592dd763bd84a2191700f3dfb''"

text \<open>\<^verbatim>\<open>BlockUnlocker\<close>: the clients \<^verbatim>\<open>backend\<close>, \<^verbatim>\<open>db\<close> and \<^verbatim>\<open>rpc\<close> are the
  collaborators of the record \<open>env\<close> below.\<close>

record BlockUnlocker =
  config :: UnlockerConfig
  halt :: bool
  lastFail :: "error option"
  mainNet :: bool

subsection \<open>The collaborators\<close>

text \<open>
  The node (package \<^verbatim>\<open>rpc\<close>), the SQL store (\<^verbatim>\<open>storage/mysql\<close>), the share store
  (\<^verbatim>\<open>storage/redis\<close>), the reward tables (\<^verbatim>\<open>storage/types\<close>) and \<^verbatim>\<open>util.String2Big\<close>
  are not part of the file: they are parameters of the model, one function per method the
  unlocker calls, giving the answer of the collaborator to each request. A Go result
  \<^verbatim>\<open>(*T, error)\<close> is \<open>error + T option\<close> (the error is tested first everywhere), a result
  \<^verbatim>\<open>error\<close> is \<open>error option\<close>. The share map of a round, \<^verbatim>\<open>map[string]int64\<close>, is the
  list of its entries, each login once. The reward tables are taken as functions that
  return a fresh number at each call, as the spec describes them; the answers do not change
  during a pass.
\<close>

type_synonym rewards_map = "string \<rightharpoonup> int64"
type_synonym percents_map = "string \<rightharpoonup> rat"

record env =
  GetPendingBlock :: "error + GetBlockReply option"
  GetBlockByHeight :: "int64 \<Rightarrow> error + GetBlockReply option"
  GetUncleByBlockNumberAndIndex :: "int64 \<Rightarrow> nat \<Rightarrow> error + GetBlockReply option"
  GetTxReceipt :: "string \<Rightarrow> error + TxReceipt option"
  GetCandidates :: "int64 \<Rightarrow> error + BlockData list"
  GetImmatureBlocks :: "int64 \<Rightarrow> error + BlockData list"
  WritePendingOrphans :: "BlockData list \<Rightarrow> error option"
  WriteOrphan :: "BlockData \<Rightarrow> error option"
  WriteImmatureBlock :: "BlockData \<Rightarrow> rewards_map \<Rightarrow> percents_map \<Rightarrow> error option"
  WriteMaturedBlock :: "BlockData \<Rightarrow> rewards_map \<Rightarrow> percents_map \<Rightarrow> error option"
  WriteImmatureError :: "BlockData \<Rightarrow> int \<Rightarrow> int \<Rightarrow> error option"
  GetRoundShares :: "int64 \<Rightarrow> string \<Rightarrow> error + (string \<times> int64) list"
  GetConstReward :: "int64 \<Rightarrow> bool \<Rightarrow> int"
  GetRewardForUncle :: "int64 \<Rightarrow> bool \<Rightarrow> int"
  GetUncleReward :: "int64 \<Rightarrow> int64 \<Rightarrow> bool \<Rightarrow> int"
  String2Big :: "string \<Rightarrow> int"

text \<open>The requests a pass sends, in the order it sends them, and the one log line the
  claims speak of (the suspension line of a halted unlocker).\<close>

datatype event =
    RpcGetPendingBlock
  | RpcGetBlockByHeight int64
  | RpcGetUncle int64 nat
  | RpcGetTxReceipt string
  | DbGetCandidates int64
  | DbGetImmatureBlocks int64
  | DbWritePendingOrphans "BlockData list"
  | DbWriteOrphan BlockData
  | DbWriteImmatureBlock BlockData rewards_map percents_map
  | DbWriteMaturedBlock BlockData rewards_map percents_map
  | DbWriteImmatureError BlockData int int
  | RedisGetRoundShares int64 string
  | LogSuspended "error option"

subsection \<open>Transaction fees, \<^verbatim>\<open>handleBlock\<close> and \<^verbatim>\<open>handleUncle\<close>\<close>

fun getExtraRewardForTx_loop ::
  "env \<Rightarrow> Tx list \<Rightarrow> int \<Rightarrow> event list \<Rightarrow> (error + int) \<times> event list" where
  "getExtraRewardForTx_loop env [] amount tr = (Inr amount, tr)"
| "getExtraRewardForTx_loop env (tx # txs) amount tr =
     (let tr1 = tr @ [RpcGetTxReceipt (TxHash tx)] in
      case GetTxReceipt env (TxHash tx) of
        Inl err \<Rightarrow> (Inl err, tr1)
      | Inr None \<Rightarrow> getExtraRewardForTx_loop env txs amount tr1
      | Inr (Some receipt) \<Rightarrow>
          let gasUsed = String2Big env (GasUsed receipt);
              gasPrice = String2Big env (TxGasPrice tx);
              fee = gasUsed * gasPrice
          in getExtraRewardForTx_loop env txs (amount + fee) tr1)"

definition getExtraRewardForTx ::
  "env \<Rightarrow> GetBlockReply \<Rightarrow> event list \<Rightarrow> (error + int) \<times> event list" where
  "getExtraRewardForTx env block tr = getExtraRewardForTx_loop env (Transactions block) 0 tr"

text \<open>\<^verbatim>\<open>handleBlock\<close> returns its error, the candidate as the call leaves it (the height is
  already written when a receipt fetch fails) and the requests sent.\<close>

definition handleBlock ::
  "env \<Rightarrow> BlockUnlocker \<Rightarrow> GetBlockReply \<Rightarrow> BlockData \<Rightarrow> event list
     \<Rightarrow> error option \<times> BlockData \<times> event list" where
  "handleBlock env u block candidate tr =
     (case parseNumber (Number block) of
        Inl err \<Rightarrow> (Some err, candidate, tr)
      | Inr correctHeight \<Rightarrow>
          let c1 = candidate\<lparr>Height := correctHeight\<rparr>;
              reward = GetConstReward env (Height c1) (mainNet u)
          in case getExtraRewardForTx env block tr of
               (Inl err, tr1) \<Rightarrow> (Some (TxReceiptError err), c1, tr1)
             | (Inr extraTxReward, tr1) \<Rightarrow>
                 let c2 = (if KeepTxFees (config u) then c1\<lparr>ExtraReward := Some extraTxReward\<rparr>
                           else c1);
                     reward1 = (if KeepTxFees (config u) then reward else reward + extraTxReward);
                     uncleReward = GetRewardForUncle env (Height c2) (mainNet u);
                     rewardForUncles = uncleReward * int (length (Uncles block));
                     reward2 = reward1 + rewardForUncles
                 in (None, c2\<lparr>Orphan := False, Hash := BlockHash block, Reward := reward2\<rparr>, tr1))"

definition handleUncle ::
  "env \<Rightarrow> BlockUnlocker \<Rightarrow> int64 \<Rightarrow> GetBlockReply \<Rightarrow> BlockData \<Rightarrow> error option \<times> BlockData" where
  "handleUncle env u height uncle candidate =
     (case parseNumber (Number uncle) of
        Inl err \<Rightarrow> (Some err, candidate)
      | Inr uncleHeight \<Rightarrow>
          let reward = GetUncleReward env uncleHeight height (mainNet u);
              reward1 = (if reward < 0 then 0 else reward)
          in (None, candidate\<lparr>Height := height, UncleHeight := uncleHeight, Orphan := False,
                              Hash := BlockHash uncle, Reward := reward1\<rparr>))"

subsection \<open>\<^verbatim>\<open>unlockCandidates\<close>\<close>

text \<open>
  What the search of one candidate ends with. The loops return the outcome, the unlocker
  (\<^verbatim>\<open>halt\<close> and \<^verbatim>\<open>lastFail\<close> are written where \<^verbatim>\<open>handleBlock\<close> or
  \<^verbatim>\<open>handleUncle\<close> fails) and the requests sent. The log lines of a match slice the first
  ten bytes of the hash, \<^verbatim>\<open>candidate.Hash[0:10]\<close> and \<^verbatim>\<open>uncle.Hash[0:10]\<close>: a shorter
  hash is a run-time panic.
\<close>

datatype scan = MatchedBlock BlockData | MatchedUncle BlockData | NoMatch

fun scanUncles ::
  "env \<Rightarrow> BlockUnlocker \<Rightarrow> int64 \<Rightarrow> BlockData \<Rightarrow> (nat \<times> string) list \<Rightarrow> event list
     \<Rightarrow> scan result \<times> BlockUnlocker \<times> event list" where
  "scanUncles env u height candidate [] tr = (Ok NoMatch, u, tr)"
| "scanUncles env u height candidate ((uncleIndex, uncleHash) # rest) tr =
     (let tr1 = tr @ [RpcGetUncle height uncleIndex] in
      case GetUncleByBlockNumberAndIndex env height uncleIndex of
        Inl err \<Rightarrow> (Fail (UncleRetrieveError uncleHash err), u, tr1)
      | Inr None \<Rightarrow> (Fail (UncleMissing height), u, tr1)
      | Inr (Some uncle) \<Rightarrow>
          if matchCandidate uncle candidate then
            (case handleUncle env u height uncle candidate of
               (Some err, c1) \<Rightarrow> (Fail err, u\<lparr>halt := True, lastFail := Some err\<rparr>, tr1)
             | (None, c1) \<Rightarrow>
                 if length (BlockHash uncle) < 10 then (Panic, u, tr1)
                 else (Ok (MatchedUncle c1), u, tr1))
          else scanUncles env u height candidate rest tr1)"

text \<open>The body of the loop over the heights, from the fetch of the block on: what one
  height gives. \<open>Ok NoMatch\<close> is the way on to the next height (the \<^verbatim>\<open>continue\<close> of a
  block without uncles, and the end of the body with \<^verbatim>\<open>orphan\<close> still true).\<close>

definition scanHeight ::
  "env \<Rightarrow> BlockUnlocker \<Rightarrow> BlockData \<Rightarrow> int64 \<Rightarrow> event list
     \<Rightarrow> scan result \<times> BlockUnlocker \<times> event list" where
  "scanHeight env u candidate height tr =
     (let tr1 = tr @ [RpcGetBlockByHeight height] in
      case GetBlockByHeight env height of
        Inl err \<Rightarrow> (Fail err, u, tr1)
      | Inr None \<Rightarrow> (Fail (WrongNodeHeight height), u, tr1)
      | Inr (Some block) \<Rightarrow>
          if matchCandidate block candidate then
            (case handleBlock env u block candidate tr1 of
               (Some err, c1, tr2) \<Rightarrow> (Fail err, u\<lparr>halt := True, lastFail := Some err\<rparr>, tr2)
             | (None, c1, tr2) \<Rightarrow>
                 if length (Hash c1) < 10 then (Panic, u, tr2)
                 else (Ok (MatchedBlock c1), u, tr2))
          else if length (Uncles block) = 0 then (Ok NoMatch, u, tr1)
          else scanUncles env u height candidate (enumerate 0 (Uncles block)) tr1)"

text \<open>The loop \<^verbatim>\<open>for i := int64(minDepth * -1); i < minDepth; i++\<close> over the heights
  \<^verbatim>\<open>candidate.Height + i\<close> (an \<^verbatim>\<open>int64\<close> sum, which wraps); a negative height is
  skipped before the fetch.\<close>

function scanHeights ::
  "env \<Rightarrow> BlockUnlocker \<Rightarrow> BlockData \<Rightarrow> int \<Rightarrow> event list
     \<Rightarrow> scan result \<times> BlockUnlocker \<times> event list" where
  "scanHeights env u candidate i tr =
     (if i < minDepth then
        let height = Height candidate + word_of_int i in
        if sint height < 0 then scanHeights env u candidate (i + 1) tr
        else
          (case scanHeight env u candidate height tr of
             (Ok NoMatch, u1, tr1) \<Rightarrow> scanHeights env u1 candidate (i + 1) tr1
           | r \<Rightarrow> r)
      else (Ok NoMatch, u, tr))"
  by pat_completeness auto
termination
  by (relation "measure (\<lambda>(env, u, candidate, i, tr). nat (minDepth - i))") auto

declare scanHeights.simps [simp del]

record UnlockResult =
  maturedBlocks :: "BlockData list"
  orphanedBlocks :: "BlockData list"
  orphans :: nat
  uncles :: nat
  blocks :: nat

fun unlockCandidates_loop ::
  "env \<Rightarrow> BlockUnlocker \<Rightarrow> BlockData list \<Rightarrow> UnlockResult \<Rightarrow> event list
     \<Rightarrow> UnlockResult result \<times> BlockUnlocker \<times> event list" where
  "unlockCandidates_loop env u [] res tr = (Ok res, u, tr)"
| "unlockCandidates_loop env u (candidate # rest) res tr =
     (case scanHeights env u candidate (- minDepth) tr of
        (Fail err, u1, tr1) \<Rightarrow> (Fail err, u1, tr1)
      | (Panic, u1, tr1) \<Rightarrow> (Panic, u1, tr1)
      | (Ok (MatchedBlock c1), u1, tr1) \<Rightarrow>
          unlockCandidates_loop env u1 rest
            (res\<lparr>blocks := blocks res + 1, maturedBlocks := maturedBlocks res @ [c1]\<rparr>) tr1
      | (Ok (MatchedUncle c1), u1, tr1) \<Rightarrow>
          unlockCandidates_loop env u1 rest
            (res\<lparr>uncles := uncles res + 1, maturedBlocks := maturedBlocks res @ [c1]\<rparr>) tr1
      | (Ok NoMatch, u1, tr1) \<Rightarrow>
          unlockCandidates_loop env u1 rest
            (res\<lparr>orphans := orphans res + 1,
                 orphanedBlocks := orphanedBlocks res @ [candidate\<lparr>Orphan := True\<rparr>]\<rparr>) tr1)"

definition unlockCandidates ::
  "env \<Rightarrow> BlockUnlocker \<Rightarrow> BlockData list \<Rightarrow> event list
     \<Rightarrow> UnlockResult result \<times> BlockUnlocker \<times> event list" where
  "unlockCandidates env u candidates tr =
     unlockCandidates_loop env u candidates
       \<lparr>maturedBlocks = [], orphanedBlocks = [], orphans = 0, uncles = 0, blocks = 0\<rparr> tr"


subsection \<open>Reward arithmetic\<close>

text \<open>
  The \<^verbatim>\<open>float64\<close> quotient \<^verbatim>\<open>fee / 100\<close> of \<^verbatim>\<open>chargeFee\<close>. Go's \<^verbatim>\<open>float64\<close> is the
  IEEE 754 binary64 format and \<^verbatim>\<open>/\<close> rounds the exact quotient to the nearest float, ties
  to the even significand: \<open>f64_round\<close> is that rounding on the rational numbers, with 53
  bits of significand and the least exponent \<open>-1022\<close> (below it the spacing of the floats
  stays \<open>2 powi -1074\<close>). The quotient of a finite float by 100 is never beyond the largest
  float, so the overflow to an infinity does not arise and is not modelled.
\<close>

definition floor_log2 :: "rat \<Rightarrow> int" where
  "floor_log2 q =
     (let (a, b) = quotient_of q; d = bitlen a - bitlen b
      in if (2 :: rat) powi d \<le> q then d else d - 1)"

definition round_half_even :: "rat \<Rightarrow> int" where
  "round_half_even r =
     (let f = \<lfloor>r\<rfloor>; d = r - of_int f
      in if d < 1 / 2 then f else if 1 / 2 < d then f + 1 else if even f then f else f + 1)"

definition f64_round :: "rat \<Rightarrow> float64" where
  "f64_round q =
     (if q = 0 then 0
      else
        let e = max (floor_log2 \<bar>q\<bar>) (- 1022);
            ulp = (2 :: rat) powi (e - 52);
            m = round_half_even (\<bar>q\<bar> / ulp)
        in sgn q * of_int m * ulp)"

definition f64_div :: "float64 \<Rightarrow> float64 \<Rightarrow> float64" where
  "f64_div x y = f64_round (x / y)"

text \<open>\<^verbatim>\<open>chargeFee\<close>: \<^verbatim>\<open>new(big.Rat).SetFloat64(fee / 100)\<close> is the exact value of the
  float quotient; the product and the difference are exact.\<close>

definition chargeFee :: "rat \<Rightarrow> float64 \<Rightarrow> rat \<times> rat" where
  "chargeFee val fee =
     (let feePercent = f64_div fee 100;
          feeValue = val * feePercent
      in (val - feeValue, feeValue))"

text \<open>Modelled from the spec: the constant \<^verbatim>\<open>util.Shannon\<close> (package \<^verbatim>\<open>util\<close> is not among
  the sources); the spec gives 1 Shannon = \<open>10\<^sup>9\<close> wei.\<close>

definition Shannon :: int where
  "Shannon = 10 ^ 9"

text \<open>\<^verbatim>\<open>weiToShannonInt64\<close>: the error of \<^verbatim>\<open>strconv.ParseInt\<close> is dropped and its value
  kept.\<close>

definition weiToShannonInt64 :: "rat \<Rightarrow> int64" where
  "weiToShannonInt64 wei =
     (let shannon = of_int Shannon;
          inShannon = wei / shannon;
          (val, err) = ParseInt (FloatString0 inShannon) 10
      in word_of_int val)"

text \<open>\<^verbatim>\<open>rewards[login] += v\<close> on a Go map: a missing key reads as 0; the sum is an
  \<^verbatim>\<open>int64\<close> sum.\<close>

definition addReward :: "rewards_map \<Rightarrow> string \<Rightarrow> int64 \<Rightarrow> rewards_map" where
  "addReward rewards login v =
     rewards(login \<mapsto> (case rewards login of None \<Rightarrow> 0 | Some r \<Rightarrow> r) + v)"

text \<open>The loop of \<^verbatim>\<open>calculateRewardsForShares\<close> over the entries of the share map.
  \<^verbatim>\<open>big.NewRat(n, total)\<close> panics when \<^verbatim>\<open>total\<close> is 0: the outcome \<open>None\<close>.\<close>

fun calculateRewardsForShares_loop ::
  "(string \<times> int64) list \<Rightarrow> int64 \<Rightarrow> rat \<Rightarrow> rewards_map \<Rightarrow> percents_map
     \<Rightarrow> (rewards_map \<times> percents_map) option" where
  "calculateRewardsForShares_loop [] tot reward rewards percents = Some (rewards, percents)"
| "calculateRewardsForShares_loop ((login, n) # rest) tot reward rewards percents =
     (if tot = 0 then None
      else
        let percent = Fract (sint n) (sint tot);
            workerReward = reward * percent
        in calculateRewardsForShares_loop rest tot reward
             (addReward rewards login (weiToShannonInt64 workerReward))
             (percents(login \<mapsto> percent)))"

definition calculateRewardsForShares ::
  "(string \<times> int64) list \<Rightarrow> int64 \<Rightarrow> rat \<Rightarrow> (rewards_map \<times> percents_map) option" where
  "calculateRewardsForShares shares tot reward =
     calculateRewardsForShares_loop shares tot reward Map.empty Map.empty"

text \<open>
  \<^verbatim>\<open>calculateRewards\<close>. The six results of the source are \<open>Fail err\<close> for an error,
  \<open>Ok None\<close> for the all-nil return of a round without shares, and \<open>Ok (Some (revenue,
  minersProfit, poolProfit, rewards, percents))\<close> otherwise.
\<close>

definition calculateRewards ::
  "env \<Rightarrow> BlockUnlocker \<Rightarrow> BlockData \<Rightarrow> event list
     \<Rightarrow> (rat \<times> rat \<times> rat \<times> rewards_map \<times> percents_map) option result \<times> event list" where
  "calculateRewards env u block tr =
     (let revenue = of_int (Reward block);
          (minersProfit, poolProfit) = chargeFee revenue (PoolFee (config u));
          tr1 = tr @ [RedisGetRoundShares (RoundHeight block) (Nonce block)]
      in case GetRoundShares env (RoundHeight block) (Nonce block) of
           Inl err \<Rightarrow> (Fail err, tr1)
         | Inr shares \<Rightarrow>
             if length shares = 0 then (Ok None, tr1)
             else
               let totalShares = sum_list (map snd shares) in
               case calculateRewardsForShares shares totalShares minersProfit of
                 None \<Rightarrow> (Panic, tr1)
               | Some (rewards, percents) \<Rightarrow>
                   let (poolProfit1, revenue1) =
                         (case ExtraReward block of
                            None \<Rightarrow> (poolProfit, revenue)
                          | Some extra \<Rightarrow> (poolProfit + of_int extra, revenue + of_int extra));
                       (poolProfit2, rewards1) =
                         (if Donate (config u) then
                            let (pp, donation) = chargeFee poolProfit1 donationFee;
                                login = ToLower donationAccount
                            in (pp, addReward rewards login (weiToShannonInt64 donation))
                          else (poolProfit1, rewards));
                       rewards2 =
                         (if length (PoolFeeAddress (config u)) \<noteq> 0 then
                            addReward rewards1 (ToLower (PoolFeeAddress (config u)))
                              (weiToShannonInt64 poolProfit2)
                          else rewards1)
                   in (Ok (Some (revenue1, minersProfit, poolProfit2, rewards2, percents)), tr1))"

subsection \<open>The two passes\<close>

text \<open>
  A pass returns nothing: its effect is the unlocker it leaves and the requests it sent.
  \<open>None\<close> is a run-time panic (a nil reply of \<^verbatim>\<open>GetPendingBlock\<close> dereferenced, or a panic
  of the search or of the reward computation). \<open>haltWith\<close> is the pair of assignments
  \<^verbatim>\<open>u.halt = true; u.lastFail = err\<close> before each \<^verbatim>\<open>return\<close>.
\<close>

definition haltWith :: "BlockUnlocker \<Rightarrow> error \<Rightarrow> BlockUnlocker" where
  "haltWith u err = u\<lparr>halt := True, lastFail := Some err\<rparr>"

text \<open>The loop of \<^verbatim>\<open>unlockPendingBlocks\<close> over \<^verbatim>\<open>result.maturedBlocks\<close>. The call
  \<^verbatim>\<open>u.db.WriteImmatureError(block, 0, 1)\<close> is a statement: what it returns is dropped.\<close>

fun creditImmature ::
  "env \<Rightarrow> BlockUnlocker \<Rightarrow> BlockData list \<Rightarrow> event list \<Rightarrow> (BlockUnlocker \<times> event list) option" where
  "creditImmature env u [] tr = Some (u, tr)"
| "creditImmature env u (block # rest) tr =
     (case calculateRewards env u block tr of
        (Panic, tr1) \<Rightarrow> None
      | (Fail err, tr1) \<Rightarrow> Some (haltWith u err, tr1)
      | (Ok None, tr1) \<Rightarrow>
          let dropped = WriteImmatureError env block 0 1
          in creditImmature env u rest (tr1 @ [DbWriteImmatureError block 0 1])
      | (Ok (Some (revenue, minersProfit, poolProfit, roundRewards, percents)), tr1) \<Rightarrow>
          let tr2 = tr1 @ [DbWriteImmatureBlock block roundRewards percents] in
          case WriteImmatureBlock env block roundRewards percents of
            Some err \<Rightarrow> Some (haltWith u err, tr2)
          | None \<Rightarrow> creditImmature env u rest tr2)"

definition unlockPendingBlocks ::
  "env \<Rightarrow> BlockUnlocker \<Rightarrow> event list \<Rightarrow> (BlockUnlocker \<times> event list) option" where
  "unlockPendingBlocks env u tr =
     (if halt u then Some (u, tr @ [LogSuspended (lastFail u)])
      else
        let tr1 = tr @ [RpcGetPendingBlock] in
        case GetPendingBlock env of
          Inl err \<Rightarrow> Some (haltWith u err, tr1)
        | Inr None \<Rightarrow> None
        | Inr (Some current) \<Rightarrow>
            (case parseNumber (Number current) of
               Inl err \<Rightarrow> Some (haltWith u err, tr1)
             | Inr currentHeight \<Rightarrow>
                 let maxHeight = currentHeight - ImmatureDepth (config u);
                     tr2 = tr1 @ [DbGetCandidates maxHeight]
                 in case GetCandidates env maxHeight of
                      Inl err \<Rightarrow> Some (haltWith u err, tr2)
                    | Inr candidates \<Rightarrow>
                        if length candidates = 0 then Some (u, tr2)
                        else
                          (case unlockCandidates env u candidates tr2 of
                             (Fail err, u1, tr3) \<Rightarrow> Some (haltWith u1 err, tr3)
                           | (Panic, u1, tr3) \<Rightarrow> None
                           | (Ok res, u1, tr3) \<Rightarrow>
                               let tr4 = tr3 @ [DbWritePendingOrphans (orphanedBlocks res)] in
                               case WritePendingOrphans env (orphanedBlocks res) of
                                 Some err \<Rightarrow> Some (haltWith u1 err, tr4)
                               | None \<Rightarrow> creditImmature env u1 (maturedBlocks res) tr4)))"

text \<open>The two loops of \<^verbatim>\<open>unlockAndCreditMiners\<close>: over \<^verbatim>\<open>result.orphanedBlocks\<close>, then
  over \<^verbatim>\<open>result.maturedBlocks\<close>. \<open>writeOrphans\<close> returns the error that ended it, if any.\<close>

fun writeOrphans :: "env \<Rightarrow> BlockData list \<Rightarrow> event list \<Rightarrow> error option \<times> event list" where
  "writeOrphans env [] tr = (None, tr)"
| "writeOrphans env (block # rest) tr =
     (let tr1 = tr @ [DbWriteOrphan block] in
      case WriteOrphan env block of
        Some err \<Rightarrow> (Some err, tr1)
      | None \<Rightarrow> writeOrphans env rest tr1)"

fun creditMatured ::
  "env \<Rightarrow> BlockUnlocker \<Rightarrow> BlockData list \<Rightarrow> event list \<Rightarrow> (BlockUnlocker \<times> event list) option" where
  "creditMatured env u [] tr = Some (u, tr)"
| "creditMatured env u (block # rest) tr =
     (case calculateRewards env u block tr of
        (Panic, tr1) \<Rightarrow> None
      | (Fail err, tr1) \<Rightarrow> Some (haltWith u err, tr1)
      | (Ok None, tr1) \<Rightarrow>
          let dropped = WriteImmatureError env block (State block) 2
          in creditMatured env u rest (tr1 @ [DbWriteImmatureError block (State block) 2])
      | (Ok (Some (revenue, minersProfit, poolProfit, roundRewards, percents)), tr1) \<Rightarrow>
          let tr2 = tr1 @ [DbWriteMaturedBlock block roundRewards percents] in
          case WriteMaturedBlock env block roundRewards percents of
            Some err \<Rightarrow> Some (haltWith u err, tr2)
          | None \<Rightarrow> creditMatured env u rest tr2)"

definition unlockAndCreditMiners ::
  "env \<Rightarrow> BlockUnlocker \<Rightarrow> event list \<Rightarrow> (BlockUnlocker \<times> event list) option" where
  "unlockAndCreditMiners env u tr =
     (if halt u then Some (u, tr @ [LogSuspended (lastFail u)])
      else
        let tr1 = tr @ [RpcGetPendingBlock] in
        case GetPendingBlock env of
          Inl err \<Rightarrow> Some (haltWith u err, tr1)
        | Inr None \<Rightarrow> None
        | Inr (Some current) \<Rightarrow>
            (case parseNumber (Number current) of
               Inl err \<Rightarrow> Some (haltWith u err, tr1)
             | Inr currentHeight \<Rightarrow>
                 let maxHeight = currentHeight - Depth (config u);
                     tr2 = tr1 @ [DbGetImmatureBlocks maxHeight]
                 in case GetImmatureBlocks env maxHeight of
                      Inl err \<Rightarrow> Some (haltWith u err, tr2)
                    | Inr immature \<Rightarrow>
                        if length immature = 0 then Some (u, tr2)
                        else
                          (case unlockCandidates env u immature tr2 of
                             (Fail err, u1, tr3) \<Rightarrow> Some (haltWith u1 err, tr3)
                           | (Panic, u1, tr3) \<Rightarrow> None
                           | (Ok res, u1, tr3) \<Rightarrow>
                               (case writeOrphans env (orphanedBlocks res) tr3 of
                                  (Some err, tr4) \<Rightarrow> Some (haltWith u1 err, tr4)
                                | (None, tr4) \<Rightarrow> creditMatured env u1 (maturedBlocks res) tr4))))"


section \<open>Notions used to state the properties\<close>

text \<open>The fee of one transaction as \<^verbatim>\<open>getExtraRewardForTx\<close> counts it, whether the node
  has a receipt for it, and whether the fetch of its receipt fails.\<close>

definition txFee :: "env \<Rightarrow> Tx \<Rightarrow> int" where
  "txFee env tx =
     (case GetTxReceipt env (TxHash tx) of
        Inr (Some receipt) \<Rightarrow> String2Big env (GasUsed receipt) * String2Big env (TxGasPrice tx)
      | _ \<Rightarrow> 0)"

definition hasReceipt :: "env \<Rightarrow> Tx \<Rightarrow> bool" where
  "hasReceipt env tx = (case GetTxReceipt env (TxHash tx) of Inr (Some receipt) \<Rightarrow> True | _ \<Rightarrow> False)"

definition receiptFails :: "env \<Rightarrow> Tx \<Rightarrow> bool" where
  "receiptFails env tx = isl (GetTxReceipt env (TxHash tx))"

text \<open>
  The error, if any, with which the collaborators answer a request. The marker write
  \<^verbatim>\<open>WriteImmatureError\<close> is the one request whose answer no pass reads; \<open>checkedError\<close>
  is the error of every other request.
\<close>

fun answersError :: "env \<Rightarrow> event \<Rightarrow> error option" where
  "answersError env RpcGetPendingBlock =
     (case GetPendingBlock env of Inl e \<Rightarrow> Some e | Inr r \<Rightarrow> None)"
| "answersError env (RpcGetBlockByHeight h) =
     (case GetBlockByHeight env h of Inl e \<Rightarrow> Some e | Inr r \<Rightarrow> None)"
| "answersError env (RpcGetUncle h i) =
     (case GetUncleByBlockNumberAndIndex env h i of Inl e \<Rightarrow> Some e | Inr r \<Rightarrow> None)"
| "answersError env (RpcGetTxReceipt h) =
     (case GetTxReceipt env h of Inl e \<Rightarrow> Some e | Inr r \<Rightarrow> None)"
| "answersError env (DbGetCandidates h) =
     (case GetCandidates env h of Inl e \<Rightarrow> Some e | Inr r \<Rightarrow> None)"
| "answersError env (DbGetImmatureBlocks h) =
     (case GetImmatureBlocks env h of Inl e \<Rightarrow> Some e | Inr r \<Rightarrow> None)"
| "answersError env (DbWritePendingOrphans bs) = WritePendingOrphans env bs"
| "answersError env (DbWriteOrphan b) = WriteOrphan env b"
| "answersError env (DbWriteImmatureBlock b r p) = WriteImmatureBlock env b r p"
| "answersError env (DbWriteMaturedBlock b r p) = WriteMaturedBlock env b r p"
| "answersError env (DbWriteImmatureError b st code) = WriteImmatureError env b st code"
| "answersError env (RedisGetRoundShares h n) =
     (case GetRoundShares env h n of Inl e \<Rightarrow> Some e | Inr r \<Rightarrow> None)"
| "answersError env (LogSuspended e) = None"

fun isMarker :: "event \<Rightarrow> bool" where
  "isMarker (DbWriteImmatureError b st code) = True"
| "isMarker ev = False"

definition checkedError :: "env \<Rightarrow> event \<Rightarrow> error option" where
  "checkedError env ev = (if isMarker ev then None else answersError env ev)"

text \<open>\<open>carries lf e\<close>: the error \<open>lf\<close> is \<open>e\<close> itself, or one of the two errors that the
  unlocker builds with \<^verbatim>\<open>fmt.Errorf\<close> around an error that carries \<open>e\<close>.\<close>

fun carries :: "error \<Rightarrow> error \<Rightarrow> bool" where
  "carries (TxReceiptError e1) e = (TxReceiptError e1 = e \<or> carries e1 e)"
| "carries (UncleRetrieveError h e1) e = (UncleRetrieveError h e1 = e \<or> carries e1 e)"
| "carries lf e = (lf = e)"

text \<open>\<open>clean env evs\<close>: no request of \<open>evs\<close> is answered with a checked error.
  \<open>abortsAtFirstError env evs failure\<close>: the requests \<open>evs\<close> stop at the first one that is
  answered with a checked error, and \<open>failure\<close> then carries that error.\<close>

definition clean :: "env \<Rightarrow> event list \<Rightarrow> bool" where
  "clean env evs = list_all (\<lambda>ev. checkedError env ev = None) evs"

fun abortsAtFirstError :: "env \<Rightarrow> event list \<Rightarrow> error option \<Rightarrow> bool" where
  "abortsAtFirstError env [] failure = True"
| "abortsAtFirstError env (ev # evs) failure =
     (case checkedError env ev of
        None \<Rightarrow> abortsAtFirstError env evs failure
      | Some e \<Rightarrow> evs = [] \<and> (case failure of None \<Rightarrow> False | Some lf \<Rightarrow> carries lf e))"

text \<open>What a pass leaves as its failure: \<^verbatim>\<open>lastFail\<close> when \<^verbatim>\<open>halt\<close> is set.\<close>

definition failureOf :: "BlockUnlocker \<Rightarrow> error option" where
  "failureOf u = (if halt u then lastFail u else None)"

definition resultError :: "'a result \<Rightarrow> error option" where
  "resultError r = (case r of Fail e \<Rightarrow> Some e | _ \<Rightarrow> None)"

text \<open>\<open>follows env tr tr' failure\<close>: the requests \<open>tr'\<close> are the requests \<open>tr\<close> and then
  requests that stop at the first checked error, which \<open>failure\<close> carries.\<close>

definition follows :: "env \<Rightarrow> event list \<Rightarrow> event list \<Rightarrow> error option \<Rightarrow> bool" where
  "follows env tr tr' failure = (\<exists>evs. tr' = tr @ evs \<and> abortsAtFirstError env evs failure)"




definition uncleMatches :: "env \<Rightarrow> BlockData \<Rightarrow> int64 \<Rightarrow> nat \<Rightarrow> bool" where
  "uncleMatches env c h i =
     (case GetUncleByBlockNumberAndIndex env h i of
        Inr (Some uncle) \<Rightarrow> matchCandidate uncle c
      | _ \<Rightarrow> False)"

definition confirmsAt :: "env \<Rightarrow> BlockData \<Rightarrow> int64 \<Rightarrow> bool" where
  "confirmsAt env c h =
     (case GetBlockByHeight env h of
        Inr (Some block) \<Rightarrow>
          matchCandidate block c \<or> list_ex (uncleMatches env c h) [0 ..< length (Uncles block)]
      | _ \<Rightarrow> False)"




text \<open>
  Rounding of a rational to an integer: to the nearest, halves away from zero (what the
  code does), and toward zero (what the spec words). \<open>clampInt64\<close> is the nearest
  \<^verbatim>\<open>int64\<close>.
\<close>

definition roundHalfAway :: "rat \<Rightarrow> int" where
  "roundHalfAway x = (if x < 0 then - \<lfloor>- x + 1 / 2\<rfloor> else \<lfloor>x + 1 / 2\<rfloor>)"

definition truncateTowardZero :: "rat \<Rightarrow> int" where
  "truncateTowardZero x = (if x < 0 then - \<lfloor>- x\<rfloor> else \<lfloor>x\<rfloor>)"

definition clampInt64 :: "int \<Rightarrow> int" where
  "clampInt64 v = max (- (2 ^ 63)) (min (2 ^ 63 - 1) v)"


text \<open>The candidate whose credit a write request records, if the request is a credit
  write.\<close>

fun creditedBlock :: "event \<Rightarrow> BlockData option" where
  "creditedBlock (DbWriteImmatureBlock b r p) = Some b"
| "creditedBlock (DbWriteMaturedBlock b r p) = Some b"
| "creditedBlock ev = None"

text \<open>The requests of the credit loops for a candidate whose round has no shares: the
  share fetch and the marker write, \<open>(b, 0, 1)\<close> in the first pass and
  \<open>(b, State b, 2)\<close> in the second.\<close>

definition immatureMarker :: "BlockData \<Rightarrow> event list" where
  "immatureMarker b =
     [RedisGetRoundShares (RoundHeight b) (Nonce b), DbWriteImmatureError b 0 1]"

definition maturedMarker :: "BlockData \<Rightarrow> event list" where
  "maturedMarker b =
     [RedisGetRoundShares (RoundHeight b) (Nonce b), DbWriteImmatureError b (State b) 2]"

section \<open>Example data\<close>

text \<open>A node and stores that answer every request without an error and hold nothing, with
  a reward table of 2 ether per block, 1/32 of it per included uncle and the usual
  uncle reward; the examples below change single answers of it.\<close>

definition emptyReply :: GetBlockReply where
  "emptyReply =
     \<lparr>Number = ''0x0'', BlockHash = ''0x0000000000'', BlockNonce = ''0x00'', SealFields = [],
      Uncles = [], Transactions = []\<rparr>"

definition quietEnv :: env where
  "quietEnv =
     \<lparr>GetPendingBlock = Inr (Some emptyReply),
      GetBlockByHeight = (\<lambda>h. Inr (Some emptyReply)),
      GetUncleByBlockNumberAndIndex = (\<lambda>h i. Inr None),
      GetTxReceipt = (\<lambda>h. Inr None),
      GetCandidates = (\<lambda>h. Inr []),
      GetImmatureBlocks = (\<lambda>h. Inr []),
      WritePendingOrphans = (\<lambda>bs. None),
      WriteOrphan = (\<lambda>b. None),
      WriteImmatureBlock = (\<lambda>b r p. None),
      WriteMaturedBlock = (\<lambda>b r p. None),
      WriteImmatureError = (\<lambda>b st code. None),
      GetRoundShares = (\<lambda>h n. Inr []),
      GetConstReward = (\<lambda>h net. 2000000000000000000),
      GetRewardForUncle = (\<lambda>h net. 62500000000000000),
      GetUncleReward = (\<lambda>uh h net. (sint uh + 8 - sint h) * 2000000000000000000 div 8),
      String2Big = (\<lambda>s. fst (ParseInt (Replace0x s) 16))\<rparr>"

definition exampleConfig :: UnlockerConfig where
  "exampleConfig =
     \<lparr>PoolFee = 1, PoolFeeAddress = ''0xFEE'', Donate = False, Depth = 32, ImmatureDepth = 16,
      KeepTxFees = False\<rparr>"

definition exampleUnlocker :: BlockUnlocker where
  "exampleUnlocker = \<lparr>config = exampleConfig, halt = False, lastFail = None, mainNet = True\<rparr>"

definition exampleCandidate :: BlockData where
  "exampleCandidate =
     \<lparr>Height = 500, RoundHeight = 500, UncleHeight = 0, Nonce = ''0x11'', Hash = [],
      Orphan = False, Reward = 0, ExtraReward = None, State = 0\<rparr>"

text \<open>An uncle of number 496 with the nonce of the example candidate.\<close>

definition exampleUncle :: GetBlockReply where
  "exampleUncle =
     \<lparr>Number = ''0x1F0'', BlockHash = ''0xaaaaaaaaaa'', BlockNonce = ''0x11'', SealFields = [],
      Uncles = [], Transactions = []\<rparr>"

text \<open>A candidate that an earlier pass matched as that uncle, included at height 500:
  it has the hash and the nonce of \<open>exampleUncle\<close>.\<close>

definition immatureUncle :: BlockData where
  "immatureUncle =
     \<lparr>Height = 500, RoundHeight = 496, UncleHeight = 496, Nonce = ''0x11'',
      Hash = ''0xaaaaaaaaaa'', Orphan = False, Reward = 1000000000000000000, ExtraReward = None,
      State = 0\<rparr>"

text \<open>A reply with another hash than the immature candidate and with its nonce.\<close>

definition otherHashReply :: GetBlockReply where
  "otherHashReply =
     \<lparr>Number = ''0x1F0'', BlockHash = ''0xbbbbbbbbbb'', BlockNonce = ''0x11'', SealFields = [],
      Uncles = [], Transactions = []\<rparr>"

text \<open>A block of number 100 with one included uncle and two transactions, and a node
  that has a receipt (21000 gas used) for the first one only.\<close>

definition feeReply :: GetBlockReply where
  "feeReply =
     \<lparr>Number = ''0x64'', BlockHash = ''0xcccccccccc'', BlockNonce = ''0x11'', SealFields = [],
      Uncles = [''0xu0''],
      Transactions = [\<lparr>TxGasPrice = ''0x3b9aca00'', TxHash = ''0xt1''\<rparr>,
                      \<lparr>TxGasPrice = ''0x3b9aca00'', TxHash = ''0xt2''\<rparr>]\<rparr>"

definition feeEnv :: env where
  "feeEnv =
     quietEnv\<lparr>GetTxReceipt :=
       \<lambda>h. if h = ''0xt1'' then Inr (Some \<lparr>GasUsed = ''0x5208''\<rparr>) else Inr None\<rparr>"

text \<open>
  A node whose pending block is number 116 and whose block 100 is \<open>feeReply\<close>, and a store
  with one candidate (height 100, the nonce of \<open>feeReply\<close>) whose round has no shares and
  whose marker write fails. In \<open>receiptFailEnv\<close> the receipt fetches of the node fail
  instead.
\<close>

definition lostSharesEnv :: env where
  "lostSharesEnv =
     quietEnv
       \<lparr>GetPendingBlock := Inr (Some (emptyReply\<lparr>Number := ''0x74''\<rparr>)),
        GetBlockByHeight := \<lambda>h. if h = 100 then Inr (Some feeReply) else Inr (Some emptyReply),
        GetCandidates := \<lambda>h. Inr [exampleCandidate\<lparr>Height := 100, RoundHeight := 100\<rparr>],
        WriteImmatureError := \<lambda>b st code. Some (External ''store unavailable'')\<rparr>"







text \<open>
  A matured candidate of round 100, and stores whose marker write fails and whose round
  100 has no shares while every other round has the shares 70 and 30 of two miners. In
  \<open>lostImmatureEnv\<close> the store of \<open>lostSharesEnv\<close> also holds its candidate as an immature
  block.
\<close>

definition unsharedBlock :: BlockData where
  "unsharedBlock =
     \<lparr>Height = 100, RoundHeight = 100, UncleHeight = 0, Nonce = ''0x11'',
      Hash = ''0xcccccccccc'', Orphan = False, Reward = 2000000000000000000,
      ExtraReward = None, State = 0\<rparr>"

definition mixedRoundsEnv :: env where
  "mixedRoundsEnv =
     lostSharesEnv
       \<lparr>GetRoundShares := \<lambda>h n. if h = 100 then Inr [] else Inr [(''a'', 70), (''b'', 30)]\<rparr>"

definition lostImmatureEnv :: env where
  "lostImmatureEnv =
     lostSharesEnv
       \<lparr>GetImmatureBlocks := \<lambda>h. Inr [exampleCandidate\<lparr>Height := 100, RoundHeight := 100\<rparr>]\<rparr>"







section \<open>Properties\<close>

subsection \<open>The match predicate\<close>

lemma matchCandidate_eq:
  "matchCandidate block candidate \<longleftrightarrow>
     (Hash candidate \<noteq> [] \<and> EqualFold (Hash candidate) (BlockHash block))
     \<or> (BlockNonce block \<noteq> [] \<and> EqualFold (BlockNonce block) (Nonce candidate))
     \<or> (BlockNonce block = [] \<and> length (SealFields block) = 2
          \<and> EqualFold (Nonce candidate) (SealFields block ! 1))"
  by (auto simp: matchCandidate_def)

text \<open>
  C3. The claim decides a candidate with a hash by the hash alone. The code does not: a
  candidate whose non-empty hash differs from the hash of the reply is still matched by
  its nonce. Here the hashes \<open>0xaaaaaaaaaa\<close> and \<open>0xbbbbbbbbbb\<close> differ, the nonces agree,
  and \<open>matchCandidate\<close> answers true.
\<close>

theorem matchCandidate_hash_differs_nonce_matches:
  "Hash immatureUncle \<noteq> []
   \<and> \<not> EqualFold (Hash immatureUncle) (BlockHash otherHashReply)
   \<and> matchCandidate otherHashReply immatureUncle"
  by (simp add: matchCandidate_def immatureUncle_def otherHashReply_def EqualFold_def
      ToLower_def toLowerASCII_def)

subsection \<open>Transaction fees\<close>

lemma getExtraRewardForTx_loop_ok:
  "\<not> list_ex (receiptFails env) txs \<Longrightarrow>
   getExtraRewardForTx_loop env txs amount tr =
     (Inr (amount + sum_list (map (txFee env) txs)),
      tr @ map (\<lambda>tx. RpcGetTxReceipt (TxHash tx)) txs)"
proof (induction txs arbitrary: amount tr)
  case Nil
  then show ?case by simp
next
  case (Cons tx txs)
  then show ?case
    by (auto simp: receiptFails_def txFee_def Let_def split: sum.splits option.splits)
qed

lemma getExtraRewardForTx_loop_fail:
  "list_ex (receiptFails env) txs \<Longrightarrow>
   fst (getExtraRewardForTx_loop env txs amount tr) =
     Inl (projl (GetTxReceipt env (TxHash (hd (filter (receiptFails env) txs)))))"
proof (induction txs arbitrary: amount tr)
  case Nil
  then show ?case by simp
next
  case (Cons tx txs)
  then show ?case
    by (auto simp: receiptFails_def Let_def split: sum.splits option.splits)
qed

lemma txFee_without_receipt: "\<not> hasReceipt env tx \<Longrightarrow> txFee env tx = 0"
  by (auto simp: hasReceipt_def txFee_def split: sum.splits option.splits)

lemma sum_txFee_filter:
  "sum_list (map (txFee env) (filter (hasReceipt env) txs)) = sum_list (map (txFee env) txs)"
  by (induction txs) (auto simp: txFee_without_receipt)

text \<open>
  C9. \<^verbatim>\<open>getExtraRewardForTx\<close> returns an error exactly when the fetch of the receipt of
  some transaction of the block returns one (the error of the first such transaction);
  otherwise it returns the sum of gas used times gas price over the transactions that have
  a receipt, a transaction with a null receipt adding nothing.
\<close>

theorem getExtraRewardForTx_result:
  "(isl (fst (getExtraRewardForTx env block tr))
      \<longleftrightarrow> (\<exists>tx \<in> set (Transactions block). receiptFails env tx))
   \<and> fst (getExtraRewardForTx env block tr) =
       (if \<exists>tx \<in> set (Transactions block). receiptFails env tx
        then Inl (projl (GetTxReceipt env
                    (TxHash (hd (filter (receiptFails env) (Transactions block))))))
        else Inr (sum_list (map (txFee env) (filter (hasReceipt env) (Transactions block)))))"
proof (cases "list_ex (receiptFails env) (Transactions block)")
  case True
  then show ?thesis
    using getExtraRewardForTx_loop_fail [OF True, of 0 tr]
    by (simp add: getExtraRewardForTx_def list_ex_iff)
next
  case False
  then show ?thesis
    using getExtraRewardForTx_loop_ok [OF False, of 0 tr]
    by (simp add: getExtraRewardForTx_def list_ex_iff sum_txFee_filter)
qed

subsection \<open>\<^verbatim>\<open>handleUncle\<close> and \<^verbatim>\<open>handleBlock\<close>\<close>

text \<open>
  C8. When the number of the uncle parses to \<open>uh\<close>, \<^verbatim>\<open>handleUncle\<close> at inclusion height
  \<open>h\<close> returns no error and sets the height of the candidate to \<open>h\<close>, its uncle height to
  \<open>uh\<close>, its hash to the hash of the uncle, its orphan flag to false and its reward to the
  uncle reward of the table, or to 0 when the table gives a negative amount: the reward is
  never negative.
\<close>

theorem handleUncle_sets_fields:
  assumes "parseNumber (Number uncle) = Inr uh"
  shows "handleUncle env u h uncle c =
           (None, c\<lparr>Height := h, UncleHeight := uh, Orphan := False, Hash := BlockHash uncle,
                    Reward := max 0 (GetUncleReward env uh h (mainNet u))\<rparr>)
         \<and> 0 \<le> Reward (snd (handleUncle env u h uncle c))"
  using assms by (simp add: handleUncle_def Let_def max_def)

theorem handleUncle_sets_fields_witness:
  "parseNumber (Number exampleUncle) = Inr 496
   \<and> handleUncle (quietEnv\<lparr>GetUncleReward := \<lambda>uh h net. - 3\<rparr>) exampleUnlocker 500 exampleUncle
       exampleCandidate =
       (None, exampleCandidate\<lparr>Height := 500, UncleHeight := 496, Orphan := False,
                               Hash := ''0xaaaaaaaaaa'', Reward := 0\<rparr>)"
proof -
  have p: "parseNumber (Number exampleUncle) = Inr 496"
    by (simp add: exampleUncle_def parseNumber_def ParseInt_def ParseUint_def digitVal_def
        maxUint64_def)
  show ?thesis
    using handleUncle_sets_fields [OF p, of "quietEnv\<lparr>GetUncleReward := \<lambda>uh h net. - 3\<rparr>"
        exampleUnlocker 500 exampleCandidate] p
    by (simp add: exampleUncle_def)
qed

lemma handleBlock_ok:
  assumes "parseNumber (Number block) = Inr h"
    and "getExtraRewardForTx env block tr = (Inr extra, tr1)"
  shows "handleBlock env u block c tr =
           (None,
            c\<lparr>Height := h,
              ExtraReward := (if KeepTxFees (config u) then Some extra else ExtraReward c),
              Orphan := False, Hash := BlockHash block,
              Reward := (if KeepTxFees (config u) then GetConstReward env h (mainNet u)
                         else GetConstReward env h (mainNet u) + extra)
                        + GetRewardForUncle env h (mainNet u) * int (length (Uncles block))\<rparr>,
            tr1)"
  using assms by (simp add: handleBlock_def Let_def)

text \<open>
  C4, as the code has it. When the number of the block parses to \<open>h\<close> and the receipt
  fetches give the summed fees \<open>extra\<close>, \<^verbatim>\<open>handleBlock\<close> returns no error and sets the
  height of the candidate to \<open>h\<close>, its hash to the hash of the block, its orphan flag to
  false and its reward to the base plus the uncle inclusion reward at \<open>h\<close> times the number
  of uncles of the block; the base is the constant block reward plus \<open>extra\<close> when
  \<^verbatim>\<open>KeepTxFees\<close> is false, and with \<^verbatim>\<open>KeepTxFees\<close> the fees go to the extra reward of
  the candidate instead. The uncle height of the candidate is left as it was: it is 0
  afterwards only if it was 0 before.
\<close>

theorem handleBlock_sets_fields:
  assumes "parseNumber (Number block) = Inr h"
    and "fst (getExtraRewardForTx env block tr) = Inr extra"
  shows "handleBlock env u block c tr =
           (None,
            c\<lparr>Height := h,
              ExtraReward := (if KeepTxFees (config u) then Some extra else ExtraReward c),
              Orphan := False, Hash := BlockHash block,
              Reward := (if KeepTxFees (config u) then GetConstReward env h (mainNet u)
                         else GetConstReward env h (mainNet u) + extra)
                        + GetRewardForUncle env h (mainNet u) * int (length (Uncles block))\<rparr>,
            snd (getExtraRewardForTx env block tr))
         \<and> UncleHeight (fst (snd (handleBlock env u block c tr))) = UncleHeight c"
proof -
  from assms(2) have "getExtraRewardForTx env block tr = (Inr extra, snd (getExtraRewardForTx env block tr))"
    by (cases "getExtraRewardForTx env block tr") simp
  from handleBlock_ok [OF assms(1) this] show ?thesis by simp
qed

theorem handleBlock_sets_fields_witness:
  "parseNumber (Number feeReply) = Inr 100
   \<and> fst (getExtraRewardForTx feeEnv feeReply []) = Inr 21000000000000
   \<and> handleBlock feeEnv exampleUnlocker feeReply exampleCandidate [] =
       (None,
        exampleCandidate\<lparr>Height := 100, Orphan := False, Hash := ''0xcccccccccc'',
                          Reward := 2062521000000000000\<rparr>,
        [RpcGetTxReceipt ''0xt1'', RpcGetTxReceipt ''0xt2''])"
proof -
  have p: "parseNumber (Number feeReply) = Inr 100"
    by code_simp
  have q: "getExtraRewardForTx feeEnv feeReply [] =
             (Inr 21000000000000, [RpcGetTxReceipt ''0xt1'', RpcGetTxReceipt ''0xt2''])"
    by (simp add: getExtraRewardForTx_def feeReply_def feeEnv_def quietEnv_def ParseInt_def
        ParseUint_def digitVal_def maxUint64_def)
  then have q': "fst (getExtraRewardForTx feeEnv feeReply []) = Inr 21000000000000"
    by simp
  have k: "\<not> KeepTxFees (config exampleUnlocker)"
    by (simp add: exampleUnlocker_def exampleConfig_def)
  have r: "GetConstReward feeEnv 100 (mainNet exampleUnlocker) = 2000000000000000000"
    "GetRewardForUncle feeEnv 100 (mainNet exampleUnlocker) = 62500000000000000"
    by (simp_all add: feeEnv_def quietEnv_def)
  have b: "BlockHash feeReply = ''0xcccccccccc''" "length (Uncles feeReply) = 1"
    by (simp_all add: feeReply_def)
  have e: "exampleCandidate\<lparr>Height := 100, ExtraReward := ExtraReward exampleCandidate,
             Orphan := False, Hash := ''0xcccccccccc'', Reward := 2062521000000000000\<rparr> =
           exampleCandidate\<lparr>Height := 100, Orphan := False, Hash := ''0xcccccccccc'',
             Reward := 2062521000000000000\<rparr>"
    by (simp add: exampleCandidate_def)
  show ?thesis
    using handleBlock_sets_fields [OF p q', of exampleUnlocker exampleCandidate] p q
    by (simp add: k r b e)
qed

text \<open>
  C4 as stated fails: \<^verbatim>\<open>handleBlock\<close> never writes the uncle height. A candidate that an
  earlier pass recorded as an uncle of number 496, matched now by its hash against the
  block of number 496, keeps the uncle height 496.
\<close>

theorem handleBlock_keeps_uncle_height:
  "matchCandidate exampleUncle immatureUncle
   \<and> fst (handleBlock quietEnv exampleUnlocker exampleUncle immatureUncle []) = None
   \<and> UncleHeight (fst (snd (handleBlock quietEnv exampleUnlocker exampleUncle immatureUncle []))) = 496"
  by code_simp

subsection \<open>A round without shares\<close>

lemma calculateRewards_no_shares:
  assumes "GetRoundShares env (RoundHeight b) (Nonce b) = Inr []"
  shows "calculateRewards env u b tr = (Ok None, tr @ [RedisGetRoundShares (RoundHeight b) (Nonce b)])"
  using assms by (simp add: calculateRewards_def Let_def split: prod.splits)



subsection \<open>Errors halt a pass, and a halted unlocker does nothing\<close>

lemma aborts_None_clean: "abortsAtFirstError env evs None = clean env evs"
  by (induction evs) (auto simp: clean_def split: option.splits)


lemma aborts_append_clean:
  "clean env evs1 \<Longrightarrow> abortsAtFirstError env (evs1 @ evs2) failure = abortsAtFirstError env evs2 failure"
  by (induction evs1) (auto simp: clean_def split: option.splits)

lemma clean_append [simp]: "clean env (xs @ ys) \<longleftrightarrow> clean env xs \<and> clean env ys"
  by (simp add: clean_def)

lemma follows_refl: "follows env tr tr failure"
  by (simp add: follows_def)


lemma follows_trans:
  "follows env tr tr1 None \<Longrightarrow> follows env tr1 tr2 failure \<Longrightarrow> follows env tr tr2 failure"
  by (auto simp: follows_def aborts_None_clean aborts_append_clean)

lemma follows_ok: "checkedError env ev = None \<Longrightarrow> follows env tr (tr @ [ev]) failure"
  by (simp add: follows_def)

lemma follows_err:
  "checkedError env ev = Some e \<Longrightarrow> carries lf e \<Longrightarrow> follows env tr (tr @ [ev]) (Some lf)"
  by (simp add: follows_def)

lemma follows_ok_trans:
  "checkedError env ev = None \<Longrightarrow> follows env (tr @ [ev]) tr2 failure \<Longrightarrow> follows env tr tr2 failure"
  using follows_trans [OF follows_ok [of env ev tr None]] by blast

lemma carries_refl [simp]: "carries e e"
  by (cases e) simp_all

lemma aborts_wrap:
  "abortsAtFirstError env evs (Some f) \<Longrightarrow> (\<And>e. carries f e \<Longrightarrow> carries g e) \<Longrightarrow>
   abortsAtFirstError env evs (Some g)"
  by (induction evs) (auto split: option.splits)

lemma follows_wrap:
  "follows env tr tr' (Some f) \<Longrightarrow> (\<And>e. carries f e \<Longrightarrow> carries g e) \<Longrightarrow>
   follows env tr tr' (Some g)"
  unfolding follows_def using aborts_wrap by blast

lemma getExtraRewardForTx_loop_follows:
  "getExtraRewardForTx_loop env txs amount tr = (r, tr') \<Longrightarrow>
   follows env tr tr' (case r of Inl e \<Rightarrow> Some e | Inr a \<Rightarrow> None)"
proof (induction txs arbitrary: amount tr)
  case Nil
  then show ?case by (auto simp: follows_refl)
next
  case (Cons tx txs)
  show ?case
  proof (cases "GetTxReceipt env (TxHash tx)")
    case (Inl e)
    with Cons.prems show ?thesis
      by (auto simp: Let_def checkedError_def intro!: follows_err)
  next
    case (Inr ro)
    then have c: "checkedError env (RpcGetTxReceipt (TxHash tx)) = None"
      by (simp add: checkedError_def)
    from Inr Cons.prems obtain a where
      "getExtraRewardForTx_loop env txs a (tr @ [RpcGetTxReceipt (TxHash tx)]) = (r, tr')"
      by (auto simp: Let_def split: option.splits)
    from Cons.IH [OF this] show ?thesis
      by (rule follows_ok_trans [OF c])
  qed
qed

lemma handleBlock_follows:
  "handleBlock env u block c tr = (eo, c', tr') \<Longrightarrow> follows env tr tr' eo"
proof (cases "parseNumber (Number block)")
  case (Inl e)
  assume "handleBlock env u block c tr = (eo, c', tr')"
  with Inl show ?thesis by (auto simp: handleBlock_def follows_refl)
next
  case (Inr h)
  assume hb: "handleBlock env u block c tr = (eo, c', tr')"
  obtain r tr1 where g: "getExtraRewardForTx_loop env (Transactions block) 0 tr = (r, tr1)"
    by (cases "getExtraRewardForTx_loop env (Transactions block) 0 tr")
  note f = getExtraRewardForTx_loop_follows [OF g]
  show ?thesis
  proof (cases r)
    case (Inl e)
    with hb \<open>parseNumber (Number block) = Inr h\<close> g
    have "eo = Some (TxReceiptError e)" "tr' = tr1"
      by (simp_all add: handleBlock_def getExtraRewardForTx_def Let_def)
    moreover from f Inl have "follows env tr tr1 (Some (TxReceiptError e))"
      by (auto intro: follows_wrap)
    ultimately show ?thesis by simp
  next
    case (Inr a)
    with hb \<open>parseNumber (Number block) = Inr h\<close> g have "eo = None" "tr' = tr1"
      by (simp_all add: handleBlock_def getExtraRewardForTx_def Let_def)
    with f Inr show ?thesis by simp
  qed
qed


lemma scanUncles_follows:
  "scanUncles env u h c us tr = (r, u', tr') \<Longrightarrow>
   follows env tr tr' (resultError r) \<and> (resultError r = None \<longrightarrow> u' = u)"
proof (induction us arbitrary: tr)
  case Nil
  then show ?case by (auto simp: follows_refl resultError_def)
next
  case (Cons iu us)
  obtain i uh where iu: "iu = (i, uh)" by (cases iu)
  show ?case
  proof (cases "GetUncleByBlockNumberAndIndex env h i")
    case (Inl e)
    with Cons.prems iu show ?thesis
      by (auto simp: Let_def resultError_def checkedError_def intro!: follows_err)
  next
    case (Inr uo)
    then have c: "checkedError env (RpcGetUncle h i) = None"
      by (simp add: checkedError_def)
    show ?thesis
    proof (cases "\<exists>uncle. uo = Some uncle \<and> \<not> matchCandidate uncle c")
      case True
      with Inr Cons.prems iu have "scanUncles env u h c us (tr @ [RpcGetUncle h i]) = (r, u', tr')"
        by (auto simp: Let_def)
      from Cons.IH [OF this] show ?thesis
        by (auto intro: follows_ok_trans [OF c])
    next
      case False
      with Inr Cons.prems iu have "tr' = tr @ [RpcGetUncle h i]" "resultError r = None \<longrightarrow> u' = u"
        by (auto simp: Let_def resultError_def split: option.splits prod.splits if_splits)
      with c show ?thesis by (simp add: follows_ok)
    qed
  qed
qed

lemma scanHeight_follows:
  "scanHeight env u c h tr = (r, u', tr') \<Longrightarrow>
   follows env tr tr' (resultError r) \<and> (resultError r = None \<longrightarrow> u' = u)"
proof (cases "GetBlockByHeight env h")
  case (Inl e)
  assume "scanHeight env u c h tr = (r, u', tr')"
  with Inl show ?thesis
    by (auto simp: scanHeight_def Let_def resultError_def checkedError_def intro!: follows_err)
next
  case (Inr bo)
  assume sh: "scanHeight env u c h tr = (r, u', tr')"
  from Inr have c: "checkedError env (RpcGetBlockByHeight h) = None"
    by (simp add: checkedError_def)
  show ?thesis
  proof (cases bo)
    case None
    with Inr sh c show ?thesis
      by (auto simp: scanHeight_def Let_def resultError_def follows_ok)
  next
    case (Some block)
    show ?thesis
    proof (cases "matchCandidate block c")
      case True
      obtain eo c1 tr2 where hb: "handleBlock env u block c (tr @ [RpcGetBlockByHeight h]) = (eo, c1, tr2)"
        by (cases "handleBlock env u block c (tr @ [RpcGetBlockByHeight h])")
      from handleBlock_follows [OF hb] have f: "follows env tr tr2 eo"
        by (rule follows_ok_trans [OF c])
      from sh Inr Some True hb have "tr' = tr2" "resultError r = eo" "resultError r = None \<longrightarrow> u' = u"
        by (auto simp: scanHeight_def Let_def resultError_def split: option.splits if_splits)
      with f show ?thesis by simp
    next
      case False
      show ?thesis
      proof (cases "length (Uncles block) = 0")
        case True
        with sh Inr Some False c show ?thesis
          by (auto simp: scanHeight_def Let_def resultError_def follows_ok)
      next
        case nz: False
        with sh Inr Some False
        have "scanUncles env u h c (enumerate 0 (Uncles block)) (tr @ [RpcGetBlockByHeight h]) = (r, u', tr')"
          by (auto simp: scanHeight_def Let_def)
        from scanUncles_follows [OF this] show ?thesis
          by (auto intro: follows_ok_trans [OF c])
      qed
    qed
  qed
qed

lemma scanHeights_follows:
  "scanHeights env u c i tr = (r, u', tr') \<Longrightarrow>
   follows env tr tr' (resultError r) \<and> (resultError r = None \<longrightarrow> u' = u)"
proof (induction "nat (minDepth - i)" arbitrary: i u tr)
  case 0
  then have "\<not> i < minDepth" by simp
  with 0 show ?case by (auto simp: scanHeights.simps follows_refl resultError_def)
next
  case (Suc n)
  then have lt: "i < minDepth" and n: "n = nat (minDepth - (i + 1))" by auto
  note ih = Suc.hyps(1) [OF n]
  let ?h = "Height c + word_of_int i"
  show ?case
  proof (cases "sint ?h < 0")
    case True
    with Suc.prems lt have "scanHeights env u c (i + 1) tr = (r, u', tr')"
      by (subst (asm) scanHeights.simps) (simp add: Let_def)
    from ih [OF this] show ?thesis .
  next
    case False
    obtain r1 u1 tr1 where sh: "scanHeight env u c ?h tr = (r1, u1, tr1)"
      by (cases "scanHeight env u c ?h tr")
    note f1 = scanHeight_follows [OF sh]
    show ?thesis
    proof (cases "r1 = Ok NoMatch")
      case True
      with f1 have u1: "u1 = u" and c1: "follows env tr tr1 None"
        by (simp_all add: resultError_def)
      from Suc.prems lt False sh True have "scanHeights env u1 c (i + 1) tr1 = (r, u', tr')"
        by (subst (asm) scanHeights.simps) (simp add: Let_def)
      from ih [OF this] u1 c1 show ?thesis
        by (auto intro: follows_trans)
    next
      case nm: False
      with Suc.prems lt False sh have "(r, u', tr') = (r1, u1, tr1)"
        by (subst (asm) scanHeights.simps)
          (auto simp: Let_def split: result.splits scan.splits)
      with f1 show ?thesis by simp
    qed
  qed
qed

lemma unlockCandidates_loop_follows:
  "unlockCandidates_loop env u cs res tr = (r, u', tr') \<Longrightarrow>
   follows env tr tr' (resultError r) \<and> (resultError r = None \<longrightarrow> u' = u)"
proof (induction cs arbitrary: u res tr)
  case Nil
  then show ?case by (auto simp: follows_refl resultError_def)
next
  case (Cons c cs)
  obtain r1 u1 tr1 where sh: "scanHeights env u c (- minDepth) tr = (r1, u1, tr1)"
    by (cases "scanHeights env u c (- minDepth) tr")
  note f1 = scanHeights_follows [OF sh]
  show ?case
  proof (cases r1)
    case (Ok sc)
    with f1 have u1: "u1 = u" and c1: "follows env tr tr1 None"
      by (simp_all add: resultError_def)
    from Cons.prems sh Ok obtain res1 where
      "unlockCandidates_loop env u1 cs res1 tr1 = (r, u', tr')"
      by (cases sc) auto
    from Cons.IH [OF this] u1 c1 show ?thesis
      by (auto intro: follows_trans)
  next
    case (Fail e)
    with Cons.prems sh have "r = Fail e" "u' = u1" "tr' = tr1" by simp_all
    with f1 Fail show ?thesis by (simp add: resultError_def)
  next
    case Panic
    with Cons.prems sh have "r = Panic" "u' = u1" "tr' = tr1" by simp_all
    with f1 Panic show ?thesis by (simp add: resultError_def)
  qed
qed

lemma calculateRewards_follows:
  "calculateRewards env u b tr = (r, tr') \<Longrightarrow> follows env tr tr' (resultError r)"
proof (cases "GetRoundShares env (RoundHeight b) (Nonce b)")
  case (Inl e)
  assume "calculateRewards env u b tr = (r, tr')"
  with Inl have "r = Fail e" "tr' = tr @ [RedisGetRoundShares (RoundHeight b) (Nonce b)]"
    by (auto simp: calculateRewards_def Let_def split: prod.splits)
  with Inl show ?thesis
    by (auto simp: resultError_def checkedError_def intro!: follows_err)
next
  case (Inr shares)
  assume "calculateRewards env u b tr = (r, tr')"
  with Inr have "resultError r = None" "tr' = tr @ [RedisGetRoundShares (RoundHeight b) (Nonce b)]"
    by (auto simp: calculateRewards_def Let_def resultError_def
        split: prod.splits if_splits option.splits)
  with Inr show ?thesis
    by (auto simp: checkedError_def intro!: follows_ok)
qed

lemma failureOf_haltWith [simp]: "failureOf (haltWith u e) = Some e"
  by (simp add: failureOf_def haltWith_def)

lemma failureOf_not_halted: "\<not> halt u \<Longrightarrow> failureOf u = None"
  by (simp add: failureOf_def)

lemma creditImmature_follows:
  "\<not> halt u \<Longrightarrow> creditImmature env u bs tr = Some (u', tr') \<Longrightarrow>
   follows env tr tr' (failureOf u')"
proof (induction bs arbitrary: tr)
  case Nil
  then show ?case by (auto simp: follows_refl)
next
  case (Cons b bs)
  obtain r tr1 where cr: "calculateRewards env u b tr = (r, tr1)"
    by (cases "calculateRewards env u b tr")
  note f1 = calculateRewards_follows [OF cr]
  show ?case
  proof (cases r)
    case Panic
    with Cons.prems cr show ?thesis by simp
  next
    case (Fail e)
    with Cons.prems cr have "u' = haltWith u e" "tr' = tr1" by simp_all
    with f1 Fail show ?thesis by (simp add: resultError_def)
  next
    case (Ok ro)
    with f1 have c1: "follows env tr tr1 None" by (simp add: resultError_def)
    show ?thesis
    proof (cases ro)
      case None
      with Cons.prems cr Ok
      have "creditImmature env u bs (tr1 @ [DbWriteImmatureError b 0 1]) = Some (u', tr')"
        by (simp add: Let_def)
      from Cons.IH [OF Cons.prems(1) this]
      have "follows env tr1 tr' (failureOf u')"
        by (rule follows_ok_trans [rotated]) (simp add: checkedError_def)
      with c1 show ?thesis by (rule follows_trans)
    next
      case (Some q)
      obtain revenue minersProfit poolProfit roundRewards percents
        where q: "q = (revenue, minersProfit, poolProfit, roundRewards, percents)"
        by (cases q)
      let ?ev = "DbWriteImmatureBlock b roundRewards percents"
      show ?thesis
      proof (cases "WriteImmatureBlock env b roundRewards percents")
        case None
        then have c: "checkedError env ?ev = None" by (simp add: checkedError_def)
        from Cons.prems cr Ok Some q None
        have "creditImmature env u bs (tr1 @ [?ev]) = Some (u', tr')"
          by (simp add: Let_def)
        from Cons.IH [OF Cons.prems(1) this]
        have "follows env tr1 tr' (failureOf u')"
          by (rule follows_ok_trans [OF c])
        with c1 show ?thesis by (rule follows_trans)
      next
        case (Some e)
        then have c: "checkedError env ?ev = Some e" by (simp add: checkedError_def)
        from Cons.prems cr Ok \<open>ro = Some q\<close> q Some
        have "u' = haltWith u e" "tr' = tr1 @ [?ev]"
          by (simp_all add: Let_def)
        with c1 follows_err [OF c carries_refl, of tr1] show ?thesis
          by (auto intro: follows_trans)
      qed
    qed
  qed
qed

lemma creditMatured_follows:
  "\<not> halt u \<Longrightarrow> creditMatured env u bs tr = Some (u', tr') \<Longrightarrow>
   follows env tr tr' (failureOf u')"
proof (induction bs arbitrary: tr)
  case Nil
  then show ?case by (auto simp: follows_refl)
next
  case (Cons b bs)
  obtain r tr1 where cr: "calculateRewards env u b tr = (r, tr1)"
    by (cases "calculateRewards env u b tr")
  note f1 = calculateRewards_follows [OF cr]
  show ?case
  proof (cases r)
    case Panic
    with Cons.prems cr show ?thesis by simp
  next
    case (Fail e)
    with Cons.prems cr have "u' = haltWith u e" "tr' = tr1" by simp_all
    with f1 Fail show ?thesis by (simp add: resultError_def)
  next
    case (Ok ro)
    with f1 have c1: "follows env tr tr1 None" by (simp add: resultError_def)
    show ?thesis
    proof (cases ro)
      case None
      with Cons.prems cr Ok
      have "creditMatured env u bs (tr1 @ [DbWriteImmatureError b (State b) 2]) = Some (u', tr')"
        by (simp add: Let_def)
      from Cons.IH [OF Cons.prems(1) this]
      have "follows env tr1 tr' (failureOf u')"
        by (rule follows_ok_trans [rotated]) (simp add: checkedError_def)
      with c1 show ?thesis by (rule follows_trans)
    next
      case (Some q)
      obtain revenue minersProfit poolProfit roundRewards percents
        where q: "q = (revenue, minersProfit, poolProfit, roundRewards, percents)"
        by (cases q)
      let ?ev = "DbWriteMaturedBlock b roundRewards percents"
      show ?thesis
      proof (cases "WriteMaturedBlock env b roundRewards percents")
        case None
        then have c: "checkedError env ?ev = None" by (simp add: checkedError_def)
        from Cons.prems cr Ok Some q None
        have "creditMatured env u bs (tr1 @ [?ev]) = Some (u', tr')"
          by (simp add: Let_def)
        from Cons.IH [OF Cons.prems(1) this]
        have "follows env tr1 tr' (failureOf u')"
          by (rule follows_ok_trans [OF c])
        with c1 show ?thesis by (rule follows_trans)
      next
        case (Some e)
        then have c: "checkedError env ?ev = Some e" by (simp add: checkedError_def)
        from Cons.prems cr Ok \<open>ro = Some q\<close> q Some
        have "u' = haltWith u e" "tr' = tr1 @ [?ev]"
          by (simp_all add: Let_def)
        with c1 follows_err [OF c carries_refl, of tr1] show ?thesis
          by (auto intro: follows_trans)
      qed
    qed
  qed
qed



lemma unlockCandidates_follows:
  "unlockCandidates env u cs tr = (r, u', tr') \<Longrightarrow>
   follows env tr tr' (resultError r) \<and> (resultError r = None \<longrightarrow> u' = u)"
  unfolding unlockCandidates_def by (rule unlockCandidates_loop_follows)






















subsection \<open>A failed marker write does not stop a pass\<close>

lemma getExtraRewardForTx_loop_marker:
  "getExtraRewardForTx_loop (env\<lparr>WriteImmatureError := f\<rparr>) txs amount tr =
   getExtraRewardForTx_loop env txs amount tr"
  by (induction txs arbitrary: amount tr) (auto simp: Let_def split: sum.splits option.splits)

lemma handleBlock_marker:
  "handleBlock (env\<lparr>WriteImmatureError := f\<rparr>) u block c tr = handleBlock env u block c tr"
  by (simp add: handleBlock_def getExtraRewardForTx_def getExtraRewardForTx_loop_marker Let_def
      split: sum.splits prod.splits)

lemma handleUncle_marker:
  "handleUncle (env\<lparr>WriteImmatureError := f\<rparr>) u h uncle c = handleUncle env u h uncle c"
  by (simp add: handleUncle_def Let_def split: sum.splits)

lemma scanUncles_marker:
  "scanUncles (env\<lparr>WriteImmatureError := f\<rparr>) u h c us tr = scanUncles env u h c us tr"
  by (induction us arbitrary: tr)
    (auto simp: Let_def handleUncle_marker split: sum.splits option.splits)

lemma scanHeight_marker:
  "scanHeight (env\<lparr>WriteImmatureError := f\<rparr>) u c h tr = scanHeight env u c h tr"
  by (simp add: scanHeight_def handleBlock_marker scanUncles_marker Let_def
      split: sum.splits option.splits)

lemma scanHeights_marker:
  "scanHeights (env\<lparr>WriteImmatureError := f\<rparr>) u c i tr = scanHeights env u c i tr"
proof (induction "nat (minDepth - i)" arbitrary: i u tr)
  case 0
  then have "\<not> i < minDepth" by simp
  then show ?case by (simp add: scanHeights.simps)
next
  case (Suc n)
  then have lt: "i < minDepth" and n: "n = nat (minDepth - (i + 1))" by auto
  have ih: "\<And>u tr. scanHeights (env\<lparr>WriteImmatureError := f\<rparr>) u c (i + 1) tr =
      scanHeights env u c (i + 1) tr"
    using Suc.hyps(1) [OF n] .
  show ?case
    by (subst scanHeights.simps, subst (2) scanHeights.simps)
      (simp add: lt ih scanHeight_marker Let_def
        split: prod.splits result.splits scan.splits)
qed

lemma unlockCandidates_loop_marker:
  "unlockCandidates_loop (env\<lparr>WriteImmatureError := f\<rparr>) u cs res tr =
   unlockCandidates_loop env u cs res tr"
  by (induction cs arbitrary: u res tr)
    (simp_all add: scanHeights_marker split: prod.splits result.splits scan.splits)

lemma calculateRewards_marker:
  "calculateRewards (env\<lparr>WriteImmatureError := f\<rparr>) u b tr = calculateRewards env u b tr"
  by (simp add: calculateRewards_def)

lemma creditImmature_marker:
  "creditImmature (env\<lparr>WriteImmatureError := f\<rparr>) u bs tr = creditImmature env u bs tr"
  by (induction bs arbitrary: tr)
    (simp_all add: calculateRewards_marker Let_def
      split: prod.splits result.splits option.splits)

lemma creditMatured_marker:
  "creditMatured (env\<lparr>WriteImmatureError := f\<rparr>) u bs tr = creditMatured env u bs tr"
  by (induction bs arbitrary: tr)
    (simp_all add: calculateRewards_marker Let_def
      split: prod.splits result.splits option.splits)

lemma writeOrphans_marker:
  "writeOrphans (env\<lparr>WriteImmatureError := f\<rparr>) bs tr = writeOrphans env bs tr"
  by (induction bs arbitrary: tr) (simp_all add: Let_def split: option.splits)

lemma unlockCandidates_marker:
  "unlockCandidates (env\<lparr>WriteImmatureError := f\<rparr>) u cs tr = unlockCandidates env u cs tr"
  by (simp add: unlockCandidates_def unlockCandidates_loop_marker)

lemma creditImmature_no_shares:
  "\<forall>b\<in>set bs. GetRoundShares env (RoundHeight b) (Nonce b) = Inr [] \<Longrightarrow>
   creditImmature env u bs tr = Some (u, tr @ concat (map immatureMarker bs))"
  by (induction bs arbitrary: tr)
    (simp_all add: calculateRewards_no_shares immatureMarker_def Let_def)

lemma creditMatured_no_shares:
  "\<forall>b\<in>set bs. GetRoundShares env (RoundHeight b) (Nonce b) = Inr [] \<Longrightarrow>
   creditMatured env u bs tr = Some (u, tr @ concat (map maturedMarker bs))"
  by (induction bs arbitrary: tr)
    (simp_all add: calculateRewards_no_shares maturedMarker_def Let_def)

lemma unlockCandidates_Ok_unlocker:
  "unlockCandidates env u cs tr = (Ok res, u1, tr3) \<Longrightarrow> u1 = u"
  using unlockCandidates_follows [of env u cs tr "Ok res" u1 tr3]
  by (simp add: resultError_def)

lemma unlockPendingBlocks_markers_fail:
  assumes "\<not> halt u"
    and "GetPendingBlock env = Inr (Some cur)"
    and "parseNumber (Number cur) = Inr h"
    and "GetCandidates env (h - ImmatureDepth (config u)) = Inr cs"
    and "cs \<noteq> []"
    and "unlockCandidates env u cs
           (tr @ [RpcGetPendingBlock, DbGetCandidates (h - ImmatureDepth (config u))]) =
         (Ok res, u1, tr3)"
    and "WritePendingOrphans env (orphanedBlocks res) = None"
    and "\<forall>b\<in>set (maturedBlocks res).
           GetRoundShares env (RoundHeight b) (Nonce b) = Inr []"
  shows "unlockPendingBlocks env u tr =
           Some (u, tr3 @ DbWritePendingOrphans (orphanedBlocks res)
                        # concat (map immatureMarker (maturedBlocks res)))"
proof -
  from assms(6) have u1: "u1 = u" by (rule unlockCandidates_Ok_unlocker)
  from assms(1-7) u1 have
    "unlockPendingBlocks env u tr =
       creditImmature env u (maturedBlocks res)
         (tr3 @ [DbWritePendingOrphans (orphanedBlocks res)])"
    by (simp add: unlockPendingBlocks_def Let_def)
  with creditImmature_no_shares [OF assms(8)] show ?thesis by simp
qed

lemma unlockAndCreditMiners_markers_fail:
  assumes "\<not> halt u"
    and "GetPendingBlock env = Inr (Some cur)"
    and "parseNumber (Number cur) = Inr h"
    and "GetImmatureBlocks env (h - Depth (config u)) = Inr cs"
    and "cs \<noteq> []"
    and "unlockCandidates env u cs
           (tr @ [RpcGetPendingBlock, DbGetImmatureBlocks (h - Depth (config u))]) =
         (Ok res, u1, tr3)"
    and "writeOrphans env (orphanedBlocks res) tr3 = (None, tr4)"
    and "\<forall>b\<in>set (maturedBlocks res).
           GetRoundShares env (RoundHeight b) (Nonce b) = Inr []"
  shows "unlockAndCreditMiners env u tr =
           Some (u, tr4 @ concat (map maturedMarker (maturedBlocks res)))"
proof -
  from assms(6) have u1: "u1 = u" by (rule unlockCandidates_Ok_unlocker)
  from assms(1-7) u1 have
    "unlockAndCreditMiners env u tr = creditMatured env u (maturedBlocks res) tr4"
    by (simp add: unlockAndCreditMiners_def Let_def)
  with creditMatured_no_shares [OF assms(8)] show ?thesis by simp
qed

text \<open>
  C10. When the round of a matured candidate \<open>b\<close> has no shares and the store answers the
  marker write with an error, the credit loop of either pass goes on with the candidates
  after \<open>b\<close>, with the unlocker as it was (\<^verbatim>\<open>halt\<close> is not set, \<^verbatim>\<open>lastFail\<close> is not
  written) and with the share fetch and the marker write of \<open>b\<close> as the only requests
  sent for \<open>b\<close>. A whole pass whose search succeeds and whose matured candidates all
  have rounds without shares, every marker write failing, runs to its end: it sends the
  share fetch and the marker write of every matured candidate, in order, and leaves the
  unlocker unchanged. And a pass is the same whatever the store answers to the marker
  write.
\<close>

theorem marker_write_failure_is_ignored:
  "(GetRoundShares env (RoundHeight b) (Nonce b) = Inr []
      \<and> WriteImmatureError env b 0 1 = Some e \<longrightarrow>
    creditImmature env u (b # rest) tr = creditImmature env u rest (tr @ immatureMarker b)
    \<and> creditImmature env u [b] tr = Some (u, tr @ immatureMarker b))
   \<and> (GetRoundShares env (RoundHeight b) (Nonce b) = Inr []
      \<and> WriteImmatureError env b (State b) 2 = Some e \<longrightarrow>
    creditMatured env u (b # rest) tr = creditMatured env u rest (tr @ maturedMarker b)
    \<and> creditMatured env u [b] tr = Some (u, tr @ maturedMarker b))
   \<and> (\<not> halt u \<and> GetPendingBlock env = Inr (Some cur) \<and> parseNumber (Number cur) = Inr h
      \<and> GetCandidates env (h - ImmatureDepth (config u)) = Inr cs \<and> cs \<noteq> []
      \<and> unlockCandidates env u cs
           (tr @ [RpcGetPendingBlock, DbGetCandidates (h - ImmatureDepth (config u))]) =
         (Ok res, u', tr')
      \<and> WritePendingOrphans env (orphanedBlocks res) = None
      \<and> (\<forall>b\<in>set (maturedBlocks res).
            GetRoundShares env (RoundHeight b) (Nonce b) = Inr []
            \<and> WriteImmatureError env b 0 1 \<noteq> None) \<longrightarrow>
    unlockPendingBlocks env u tr =
      Some (u, tr' @ DbWritePendingOrphans (orphanedBlocks res)
                   # concat (map immatureMarker (maturedBlocks res))))
   \<and> (\<not> halt u \<and> GetPendingBlock env = Inr (Some cur) \<and> parseNumber (Number cur) = Inr h
      \<and> GetImmatureBlocks env (h - Depth (config u)) = Inr cs \<and> cs \<noteq> []
      \<and> unlockCandidates env u cs
           (tr @ [RpcGetPendingBlock, DbGetImmatureBlocks (h - Depth (config u))]) =
         (Ok res, u', tr')
      \<and> writeOrphans env (orphanedBlocks res) tr' = (None, tr'')
      \<and> (\<forall>b\<in>set (maturedBlocks res).
            GetRoundShares env (RoundHeight b) (Nonce b) = Inr []
            \<and> WriteImmatureError env b (State b) 2 \<noteq> None) \<longrightarrow>
    unlockAndCreditMiners env u tr =
      Some (u, tr'' @ concat (map maturedMarker (maturedBlocks res))))
   \<and> unlockPendingBlocks (env\<lparr>WriteImmatureError := f\<rparr>) u tr = unlockPendingBlocks env u tr
   \<and> unlockAndCreditMiners (env\<lparr>WriteImmatureError := f\<rparr>) u tr =
       unlockAndCreditMiners env u tr"
proof (intro conjI impI)
  assume "GetRoundShares env (RoundHeight b) (Nonce b) = Inr []
      \<and> WriteImmatureError env b 0 1 = Some e"
  then have s: "GetRoundShares env (RoundHeight b) (Nonce b) = Inr []" by simp
  show "creditImmature env u (b # rest) tr = creditImmature env u rest (tr @ immatureMarker b)"
    by (simp add: calculateRewards_no_shares [OF s] immatureMarker_def Let_def)
  show "creditImmature env u [b] tr = Some (u, tr @ immatureMarker b)"
    by (simp add: calculateRewards_no_shares [OF s] immatureMarker_def Let_def)
next
  assume "GetRoundShares env (RoundHeight b) (Nonce b) = Inr []
      \<and> WriteImmatureError env b (State b) 2 = Some e"
  then have s: "GetRoundShares env (RoundHeight b) (Nonce b) = Inr []" by simp
  show "creditMatured env u (b # rest) tr = creditMatured env u rest (tr @ maturedMarker b)"
    by (simp add: calculateRewards_no_shares [OF s] maturedMarker_def Let_def)
  show "creditMatured env u [b] tr = Some (u, tr @ maturedMarker b)"
    by (simp add: calculateRewards_no_shares [OF s] maturedMarker_def Let_def)
next
  assume a: "\<not> halt u \<and> GetPendingBlock env = Inr (Some cur) \<and> parseNumber (Number cur) = Inr h
      \<and> GetCandidates env (h - ImmatureDepth (config u)) = Inr cs \<and> cs \<noteq> []
      \<and> unlockCandidates env u cs
           (tr @ [RpcGetPendingBlock, DbGetCandidates (h - ImmatureDepth (config u))]) =
         (Ok res, u', tr')
      \<and> WritePendingOrphans env (orphanedBlocks res) = None
      \<and> (\<forall>b\<in>set (maturedBlocks res).
            GetRoundShares env (RoundHeight b) (Nonce b) = Inr []
            \<and> WriteImmatureError env b 0 1 \<noteq> None)"
  then have "\<forall>b\<in>set (maturedBlocks res). GetRoundShares env (RoundHeight b) (Nonce b) = Inr []"
    by blast
  with a show "unlockPendingBlocks env u tr =
      Some (u, tr' @ DbWritePendingOrphans (orphanedBlocks res)
                   # concat (map immatureMarker (maturedBlocks res)))"
    by (intro unlockPendingBlocks_markers_fail) blast+
next
  assume a: "\<not> halt u \<and> GetPendingBlock env = Inr (Some cur) \<and> parseNumber (Number cur) = Inr h
      \<and> GetImmatureBlocks env (h - Depth (config u)) = Inr cs \<and> cs \<noteq> []
      \<and> unlockCandidates env u cs
           (tr @ [RpcGetPendingBlock, DbGetImmatureBlocks (h - Depth (config u))]) =
         (Ok res, u', tr')
      \<and> writeOrphans env (orphanedBlocks res) tr' = (None, tr'')
      \<and> (\<forall>b\<in>set (maturedBlocks res).
            GetRoundShares env (RoundHeight b) (Nonce b) = Inr []
            \<and> WriteImmatureError env b (State b) 2 \<noteq> None)"
  then have "\<forall>b\<in>set (maturedBlocks res). GetRoundShares env (RoundHeight b) (Nonce b) = Inr []"
    by blast
  with a show "unlockAndCreditMiners env u tr =
      Some (u, tr'' @ concat (map maturedMarker (maturedBlocks res)))"
    by (intro unlockAndCreditMiners_markers_fail) blast+
next
  show "unlockPendingBlocks (env\<lparr>WriteImmatureError := f\<rparr>) u tr = unlockPendingBlocks env u tr"
    by (simp add: unlockPendingBlocks_def unlockCandidates_marker creditImmature_marker
        Let_def
        cong: sum.case_cong option.case_cong prod.case_cong result.case_cong if_cong)
  show "unlockAndCreditMiners (env\<lparr>WriteImmatureError := f\<rparr>) u tr =
       unlockAndCreditMiners env u tr"
    by (simp add: unlockAndCreditMiners_def unlockCandidates_marker creditMatured_marker
        writeOrphans_marker Let_def
        cong: sum.case_cong option.case_cong prod.case_cong result.case_cong if_cong)
qed

theorem marker_write_failure_is_ignored_witness:
  "GetRoundShares mixedRoundsEnv (RoundHeight unsharedBlock) (Nonce unsharedBlock) = Inr []
   \<and> WriteImmatureError mixedRoundsEnv unsharedBlock 0 1 = Some (External ''store unavailable'')
   \<and> WriteImmatureError mixedRoundsEnv unsharedBlock (State unsharedBlock) 2 =
       Some (External ''store unavailable'')
   \<and> \<not> halt exampleUnlocker
   \<and> (\<exists>evs. creditImmature mixedRoundsEnv exampleUnlocker [unsharedBlock, immatureUncle] [] =
               Some (exampleUnlocker, immatureMarker unsharedBlock @ evs)
            \<and> length evs = 2 \<and> creditedBlock (last evs) = Some immatureUncle)
   \<and> (\<exists>evs. creditMatured mixedRoundsEnv exampleUnlocker [unsharedBlock, immatureUncle] [] =
               Some (exampleUnlocker, maturedMarker unsharedBlock @ evs)
            \<and> length evs = 2 \<and> creditedBlock (last evs) = Some immatureUncle)
   \<and> (\<exists>res tr3.
        unlockCandidates lostSharesEnv exampleUnlocker
          [exampleCandidate\<lparr>Height := 100, RoundHeight := 100\<rparr>]
          [RpcGetPendingBlock, DbGetCandidates 100] = (Ok res, exampleUnlocker, tr3)
        \<and> length (maturedBlocks res) = 1
        \<and> list_all (\<lambda>b. WriteImmatureError lostSharesEnv b 0 1 =
                           Some (External ''store unavailable'')) (maturedBlocks res)
        \<and> unlockPendingBlocks lostSharesEnv exampleUnlocker [] =
            Some (exampleUnlocker,
                  tr3 @ DbWritePendingOrphans []
                        # concat (map immatureMarker (maturedBlocks res))))
   \<and> (\<exists>res tr3.
        unlockCandidates lostImmatureEnv exampleUnlocker
          [exampleCandidate\<lparr>Height := 100, RoundHeight := 100\<rparr>]
          [RpcGetPendingBlock, DbGetImmatureBlocks 84] = (Ok res, exampleUnlocker, tr3)
        \<and> length (maturedBlocks res) = 1
        \<and> list_all (\<lambda>b. WriteImmatureError lostImmatureEnv b (State b) 2 =
                           Some (External ''store unavailable'')) (maturedBlocks res)
        \<and> unlockAndCreditMiners lostImmatureEnv exampleUnlocker [] =
            Some (exampleUnlocker, tr3 @ concat (map maturedMarker (maturedBlocks res))))"
proof -
  let ?c = "exampleCandidate\<lparr>Height := 100, RoundHeight := 100\<rparr>"
  let ?e = "External ''store unavailable''"
  have s: "GetRoundShares mixedRoundsEnv (RoundHeight unsharedBlock) (Nonce unsharedBlock) = Inr []"
    by (simp add: mixedRoundsEnv_def unsharedBlock_def)
  have m1: "WriteImmatureError mixedRoundsEnv unsharedBlock 0 1 = Some ?e"
    and m2: "WriteImmatureError mixedRoundsEnv unsharedBlock (State unsharedBlock) 2 = Some ?e"
    by (simp_all add: mixedRoundsEnv_def lostSharesEnv_def)
  have nh: "\<not> halt exampleUnlocker"
    by (simp add: exampleUnlocker_def)
  \<comment> \<open>the credit loops, with a credited candidate after the failed marker write\<close>
  have step1: "creditImmature mixedRoundsEnv exampleUnlocker [unsharedBlock, immatureUncle] [] =
      creditImmature mixedRoundsEnv exampleUnlocker [immatureUncle] (immatureMarker unsharedBlock)"
    using marker_write_failure_is_ignored
      [where env = mixedRoundsEnv and b = unsharedBlock and e = "?e" and u = exampleUnlocker
          and rest = "[immatureUncle]" and tr = "[]"] s m1
    by simp
  have "case creditImmature mixedRoundsEnv exampleUnlocker [immatureUncle]
               (immatureMarker unsharedBlock) of
          None \<Rightarrow> False
        | Some (u', tr') \<Rightarrow> u' = exampleUnlocker \<and> length tr' = 4
            \<and> creditedBlock (last tr') = Some immatureUncle"
    by code_simp
  then obtain tr1 where
    run1: "creditImmature mixedRoundsEnv exampleUnlocker [immatureUncle]
             (immatureMarker unsharedBlock) = Some (exampleUnlocker, tr1)"
    and l1: "length tr1 = 4" and c1: "creditedBlock (last tr1) = Some immatureUncle"
    by (auto split: option.splits)
  from creditImmature_follows [OF nh run1] obtain evs1 where
    e1: "tr1 = immatureMarker unsharedBlock @ evs1"
    by (auto simp: follows_def)
  from l1 e1 have le1: "length evs1 = 2" by (simp add: immatureMarker_def)
  then have "evs1 \<noteq> []" by auto
  with c1 e1 have ce1: "creditedBlock (last evs1) = Some immatureUncle" by simp
  have step2: "creditMatured mixedRoundsEnv exampleUnlocker [unsharedBlock, immatureUncle] [] =
      creditMatured mixedRoundsEnv exampleUnlocker [immatureUncle] (maturedMarker unsharedBlock)"
    using marker_write_failure_is_ignored
      [where env = mixedRoundsEnv and b = unsharedBlock and e = "?e" and u = exampleUnlocker
          and rest = "[immatureUncle]" and tr = "[]"] s m2
    by simp
  have "case creditMatured mixedRoundsEnv exampleUnlocker [immatureUncle]
               (maturedMarker unsharedBlock) of
          None \<Rightarrow> False
        | Some (u', tr') \<Rightarrow> u' = exampleUnlocker \<and> length tr' = 4
            \<and> creditedBlock (last tr') = Some immatureUncle"
    by code_simp
  then obtain tr2 where
    run2: "creditMatured mixedRoundsEnv exampleUnlocker [immatureUncle]
             (maturedMarker unsharedBlock) = Some (exampleUnlocker, tr2)"
    and l2: "length tr2 = 4" and c2: "creditedBlock (last tr2) = Some immatureUncle"
    by (auto split: option.splits)
  from creditMatured_follows [OF nh run2] obtain evs2 where
    e2: "tr2 = maturedMarker unsharedBlock @ evs2"
    by (auto simp: follows_def)
  from l2 e2 have le2: "length evs2 = 2" by (simp add: maturedMarker_def)
  then have "evs2 \<noteq> []" by auto
  with c2 e2 have ce2: "creditedBlock (last evs2) = Some immatureUncle" by simp
  \<comment> \<open>the first pass\<close>
  have p1: "GetPendingBlock lostSharesEnv = Inr (Some (emptyReply\<lparr>Number := ''0x74''\<rparr>))"
    by (simp add: lostSharesEnv_def)
  have n1: "parseNumber (Number (emptyReply\<lparr>Number := ''0x74''\<rparr>)) = Inr 116"
    by code_simp
  have d1: "116 - ImmatureDepth (config exampleUnlocker) = 100"
    by (simp add: exampleUnlocker_def exampleConfig_def)
  have g1: "GetCandidates lostSharesEnv (116 - ImmatureDepth (config exampleUnlocker)) = Inr [?c]"
    by (simp add: lostSharesEnv_def)
  have "case unlockCandidates lostSharesEnv exampleUnlocker [?c]
               [RpcGetPendingBlock, DbGetCandidates 100] of
          (Ok res, u1, tr3) \<Rightarrow> u1 = exampleUnlocker \<and> orphanedBlocks res = []
             \<and> length (maturedBlocks res) = 1
             \<and> list_all (\<lambda>b. GetRoundShares lostSharesEnv (RoundHeight b) (Nonce b) = Inr []
                             \<and> WriteImmatureError lostSharesEnv b 0 1 = Some ?e)
                 (maturedBlocks res)
        | _ \<Rightarrow> False"
    by code_simp
  then obtain res tr3 where
    uc: "unlockCandidates lostSharesEnv exampleUnlocker [?c]
           [RpcGetPendingBlock, DbGetCandidates 100] = (Ok res, exampleUnlocker, tr3)"
    and o: "orphanedBlocks res = []" and lm: "length (maturedBlocks res) = 1"
    and all: "list_all (\<lambda>b. GetRoundShares lostSharesEnv (RoundHeight b) (Nonce b) = Inr []
                             \<and> WriteImmatureError lostSharesEnv b 0 1 = Some ?e)
                 (maturedBlocks res)"
    by (auto split: prod.splits result.splits)
  have w1: "WritePendingOrphans lostSharesEnv (orphanedBlocks res) = None"
    by (simp add: lostSharesEnv_def quietEnv_def)
  from all have all': "\<forall>b\<in>set (maturedBlocks res).
      GetRoundShares lostSharesEnv (RoundHeight b) (Nonce b) = Inr []
      \<and> WriteImmatureError lostSharesEnv b 0 1 \<noteq> None"
    by (auto simp: list_all_iff)
  from all have allm: "list_all (\<lambda>b. WriteImmatureError lostSharesEnv b 0 1 = Some ?e)
      (maturedBlocks res)"
    by (auto simp: list_all_iff)
  have pass1: "unlockPendingBlocks lostSharesEnv exampleUnlocker [] =
      Some (exampleUnlocker,
            tr3 @ DbWritePendingOrphans [] # concat (map immatureMarker (maturedBlocks res)))"
    using marker_write_failure_is_ignored
      [where env = lostSharesEnv and u = exampleUnlocker and tr = "[]"
          and cur = "emptyReply\<lparr>Number := ''0x74''\<rparr>" and h = 116 and cs = "[?c]"
          and res = res and u' = exampleUnlocker and tr' = tr3]
      nh p1 n1 g1 uc w1 all' o
    by (simp add: d1)
  \<comment> \<open>the second pass\<close>
  have p2: "GetPendingBlock lostImmatureEnv = Inr (Some (emptyReply\<lparr>Number := ''0x74''\<rparr>))"
    by (simp add: lostImmatureEnv_def lostSharesEnv_def)
  have d2: "116 - Depth (config exampleUnlocker) = 84"
    by (simp add: exampleUnlocker_def exampleConfig_def)
  have g2: "GetImmatureBlocks lostImmatureEnv (116 - Depth (config exampleUnlocker)) = Inr [?c]"
    by (simp add: lostImmatureEnv_def)
  have "case unlockCandidates lostImmatureEnv exampleUnlocker [?c]
               [RpcGetPendingBlock, DbGetImmatureBlocks 84] of
          (Ok res, u1, tr3) \<Rightarrow> u1 = exampleUnlocker \<and> orphanedBlocks res = []
             \<and> length (maturedBlocks res) = 1
             \<and> list_all (\<lambda>b. GetRoundShares lostImmatureEnv (RoundHeight b) (Nonce b) = Inr []
                             \<and> WriteImmatureError lostImmatureEnv b (State b) 2 = Some ?e)
                 (maturedBlocks res)
        | _ \<Rightarrow> False"
    by code_simp
  then obtain res2 tr32 where
    uc2: "unlockCandidates lostImmatureEnv exampleUnlocker [?c]
           [RpcGetPendingBlock, DbGetImmatureBlocks 84] = (Ok res2, exampleUnlocker, tr32)"
    and o2: "orphanedBlocks res2 = []" and lm2: "length (maturedBlocks res2) = 1"
    and all2: "list_all (\<lambda>b. GetRoundShares lostImmatureEnv (RoundHeight b) (Nonce b) = Inr []
                             \<and> WriteImmatureError lostImmatureEnv b (State b) 2 = Some ?e)
                 (maturedBlocks res2)"
    by (auto split: prod.splits result.splits)
  have w2: "writeOrphans lostImmatureEnv (orphanedBlocks res2) tr32 = (None, tr32)"
    by (simp add: o2)
  from all2 have all2': "\<forall>b\<in>set (maturedBlocks res2).
      GetRoundShares lostImmatureEnv (RoundHeight b) (Nonce b) = Inr []
      \<and> WriteImmatureError lostImmatureEnv b (State b) 2 \<noteq> None"
    by (auto simp: list_all_iff)
  from all2 have allm2: "list_all (\<lambda>b. WriteImmatureError lostImmatureEnv b (State b) 2 = Some ?e)
      (maturedBlocks res2)"
    by (auto simp: list_all_iff)
  have pass2: "unlockAndCreditMiners lostImmatureEnv exampleUnlocker [] =
      Some (exampleUnlocker, tr32 @ concat (map maturedMarker (maturedBlocks res2)))"
    using marker_write_failure_is_ignored
      [where env = lostImmatureEnv and u = exampleUnlocker and tr = "[]"
          and cur = "emptyReply\<lparr>Number := ''0x74''\<rparr>" and h = 116 and cs = "[?c]"
          and res = res2 and u' = exampleUnlocker and tr' = tr32 and tr'' = tr32]
      nh p2 n1 g2 uc2 w2 all2'
    by (simp add: d2)
  from step1 run1 e1 le1 ce1 have A:
    "\<exists>evs. creditImmature mixedRoundsEnv exampleUnlocker [unsharedBlock, immatureUncle] [] =
               Some (exampleUnlocker, immatureMarker unsharedBlock @ evs)
            \<and> length evs = 2 \<and> creditedBlock (last evs) = Some immatureUncle"
    by simp
  from step2 run2 e2 le2 ce2 have B:
    "\<exists>evs. creditMatured mixedRoundsEnv exampleUnlocker [unsharedBlock, immatureUncle] [] =
               Some (exampleUnlocker, maturedMarker unsharedBlock @ evs)
            \<and> length evs = 2 \<and> creditedBlock (last evs) = Some immatureUncle"
    by simp
  from uc lm allm pass1 have C:
    "\<exists>res tr3.
        unlockCandidates lostSharesEnv exampleUnlocker [?c]
          [RpcGetPendingBlock, DbGetCandidates 100] = (Ok res, exampleUnlocker, tr3)
        \<and> length (maturedBlocks res) = 1
        \<and> list_all (\<lambda>b. WriteImmatureError lostSharesEnv b 0 1 = Some ?e) (maturedBlocks res)
        \<and> unlockPendingBlocks lostSharesEnv exampleUnlocker [] =
            Some (exampleUnlocker,
                  tr3 @ DbWritePendingOrphans []
                        # concat (map immatureMarker (maturedBlocks res)))"
    by blast
  from uc2 lm2 allm2 pass2 have D:
    "\<exists>res tr3.
        unlockCandidates lostImmatureEnv exampleUnlocker [?c]
          [RpcGetPendingBlock, DbGetImmatureBlocks 84] = (Ok res, exampleUnlocker, tr3)
        \<and> length (maturedBlocks res) = 1
        \<and> list_all (\<lambda>b. WriteImmatureError lostImmatureEnv b (State b) 2 = Some ?e)
            (maturedBlocks res)
        \<and> unlockAndCreditMiners lostImmatureEnv exampleUnlocker [] =
            Some (exampleUnlocker, tr3 @ concat (map maturedMarker (maturedBlocks res)))"
    by blast
  from s m1 m2 nh A B C D show ?thesis by blast
qed

subsection \<open>The search window of a candidate\<close>

lemma map_filter_append [simp]:
  "List.map_filter f (xs @ ys) = List.map_filter f xs @ List.map_filter f ys"
  by (simp add: List.map_filter_def)

lemma map_filter_simps' [simp]:
  "List.map_filter f [] = []"
  "List.map_filter f (x # xs) = (case f x of None \<Rightarrow> List.map_filter f xs | Some y \<Rightarrow> y # List.map_filter f xs)"
  by (simp_all add: List.map_filter_def split: option.splits)













lemma confirmsAt_sint [simp]: "confirmsAt env c (word_of_int (sint h)) = confirmsAt env c h"
  by simp








subsection \<open>Wei to Shannon\<close>

lemma digit_char:
  assumes "0 \<le> d" "d < 10"
  shows "digitVal (''0123456789'' ! nat d) = Some d"
    and "''0123456789'' ! nat d \<noteq> CHR ''-''" and "''0123456789'' ! nat d \<noteq> CHR ''+''"
proof -
  from assms have "d = 0 \<or> d = 1 \<or> d = 2 \<or> d = 3 \<or> d = 4 \<or> d = 5 \<or> d = 6 \<or> d = 7 \<or> d = 8 \<or> d = 9"
    by arith
  then show "digitVal (''0123456789'' ! nat d) = Some d"
    and "''0123456789'' ! nat d \<noteq> CHR ''-''" and "''0123456789'' ! nat d \<noteq> CHR ''+''"
    by (auto simp: digitVal_def)
qed

lemma ParseUint_loop_append:
  "ParseUint_loop s0 b acc (xs @ ys) =
     (case ParseUint_loop s0 b acc xs of
        (v, None) \<Rightarrow> ParseUint_loop s0 b v ys
      | (v, Some e) \<Rightarrow> (v, Some e))"
  by (induction xs arbitrary: acc) (auto split: option.splits)

lemma ParseUint_loop_digit:
  assumes "0 \<le> v" "0 \<le> d" "d < 10"
  shows "ParseUint_loop s0 10 v [''0123456789'' ! nat d] =
     (if v * 10 + d \<le> maxUint64 then (v * 10 + d, None) else (maxUint64, Some (RangeError s0)))"
  using assms by (auto simp: digit_char maxUint64_def)

lemma utoa_nonempty: "utoa n \<noteq> []"
  by (subst utoa.simps) simp

lemma utoa_small: "n < 10 \<Longrightarrow> utoa n = [''0123456789'' ! nat n]"
  by (subst utoa.simps) simp

lemma utoa_large:
  "\<not> n < 10 \<Longrightarrow> utoa n = utoa (n div 10) @ [''0123456789'' ! nat (n mod 10)]"
  by (subst utoa.simps) simp

lemma ParseUint_loop_utoa:
  "0 \<le> n \<Longrightarrow> ParseUint_loop s0 10 0 (utoa n) =
     (if n \<le> maxUint64 then (n, None) else (maxUint64, Some (RangeError s0)))"
proof (induction n rule: utoa.induct)
  case (1 n)
  show ?case
  proof (cases "n < 10")
    case True
    with 1(2) ParseUint_loop_digit [of 0 n s0] show ?thesis
      by (simp del: ParseUint_loop.simps add: utoa_small maxUint64_def)
  next
    case False
    with 1(2) have ih: "ParseUint_loop s0 10 0 (utoa (n div 10)) =
      (if n div 10 \<le> maxUint64 then (n div 10, None) else (maxUint64, Some (RangeError s0)))"
      by (intro 1(1)) simp_all
    have d: "0 \<le> n mod 10" "n mod 10 < 10" "0 \<le> n div 10" using 1(2) by simp_all
    have n: "n div 10 * 10 + n mod 10 = n" by simp
    have gt: "\<not> n div 10 \<le> maxUint64 \<Longrightarrow> \<not> n \<le> maxUint64"
      using d n by (simp add: maxUint64_def)
    show ?thesis
      unfolding utoa_large [OF False] ParseUint_loop_append ih
      using gt by (simp del: ParseUint_loop.simps add: ParseUint_loop_digit [OF d(3) d(1) d(2)] n)
  qed
qed

lemma hd_utoa: "0 \<le> n \<Longrightarrow> hd (utoa n) \<noteq> CHR ''-'' \<and> hd (utoa n) \<noteq> CHR ''+''"
proof (induction n rule: utoa.induct)
  case (1 n)
  show ?case
  proof (cases "n < 10")
    case True
    with 1(2) show ?thesis by (simp add: utoa_small digit_char)
  next
    case False
    with 1 have "hd (utoa (n div 10)) \<noteq> CHR ''-'' \<and> hd (utoa (n div 10)) \<noteq> CHR ''+''"
      by simp
    then show ?thesis
      by (simp add: utoa_large [OF False] utoa_nonempty)
  qed
qed

lemma ParseInt_utoa:
  assumes "0 \<le> n"
  shows "fst (ParseInt (utoa n) 10) = min (2 ^ 63 - 1) n"
    and "fst (ParseInt (CHR ''-'' # utoa n) 10) = max (- (2 ^ 63)) (- n)"
proof -
  note h = hd_utoa [OF assms]
  have p: "ParseUint (utoa n) 10 =
     (if n \<le> maxUint64 then (n, None) else (maxUint64, Some (RangeError (utoa n))))"
    by (simp add: ParseUint_def utoa_nonempty ParseUint_loop_utoa [OF assms])
  show "fst (ParseInt (utoa n) 10) = min (2 ^ 63 - 1) n"
    using h by (auto simp: ParseInt_def utoa_nonempty p maxUint64_def Let_def)
  show "fst (ParseInt (CHR ''-'' # utoa n) 10) = max (- (2 ^ 63)) (- n)"
    by (auto simp: ParseInt_def p maxUint64_def Let_def)
qed


lemma round_div:
  fixes a b :: int
  assumes "0 \<le> a" "0 < b"
  shows "(a div b + (if b \<le> a mod b + a mod b then 1 else 0)) = (2 * a + b) div (2 * b)"
proof -
  define q r where "q = a div b" and "r = a mod b"
  have a: "a = q * b + r" and r: "0 \<le> r" "r < b"
    using assms by (simp_all add: q_def r_def)
  have "(2 * a + b) div (2 * b) = (q * (2 * b) + (2 * r + b)) div (2 * b)"
    by (simp add: a algebra_simps)
  also have "\<dots> = q + (2 * r + b) div (2 * b)"
    using assms by (subst div_mult_self3) simp_all
  also have "(2 * r + b) div (2 * b) = (if b \<le> r + r then 1 else 0)"
  proof (cases "b \<le> r + r")
    case True
    then have "(2 * r + b) div (2 * b) = 1"
      using r by (intro div_pos_pos_trivial [THEN trans] int_div_pos_eq [where r = "2 * r - b"]) auto
    with True show ?thesis by simp
  next
    case False
    then have "(2 * r + b) div (2 * b) = 0"
      using r by (intro div_pos_pos_trivial) auto
    with False show ?thesis by simp
  qed
  finally show ?thesis by (simp add: q_def r_def)
qed

lemma floor_half:
  fixes a b :: int
  assumes "0 < b"
  shows "\<lfloor>(of_int a / of_int b :: rat) + 1 / 2\<rfloor> = (2 * a + b) div (2 * b)"
proof -
  have "(of_int a / of_int b :: rat) + 1 / 2 = of_int (2 * a + b) / of_int (2 * b)"
    using assms by (simp add: field_simps)
  then show ?thesis
    by (simp only: floor_divide_of_int_eq)
qed

lemma FloatString0_ParseInt:
  "fst (ParseInt (FloatString0 x) 10) = clampInt64 (roundHalfAway x)"
proof -
  obtain a b where q: "quotient_of x = (a, b)" by (cases "quotient_of x")
  then have b: "0 < b" and x: "x = of_int a / of_int b"
    by (simp_all add: quotient_of_denom_pos quotient_of_div)
  define q1 where "q1 = \<bar>a\<bar> div b + (if b \<le> \<bar>a\<bar> mod b + \<bar>a\<bar> mod b then 1 else 0)"
  have q1: "q1 = \<lfloor>(of_int \<bar>a\<bar> / of_int b :: rat) + 1 / 2\<rfloor>"
    unfolding q1_def using round_div [of "\<bar>a\<bar>" b] floor_half [OF b, of "\<bar>a\<bar>"] b by simp
  have nn: "0 \<le> q1"
    unfolding q1_def using b by (simp add: pos_imp_zdiv_nonneg_iff)
  have fs: "FloatString0 x = (if a < 0 then ''-'' else []) @ utoa q1"
    by (simp add: FloatString0_def q q1_def Let_def)
  have neg: "x < 0 \<longleftrightarrow> a < 0"
    using b by (simp add: x divide_less_0_iff)
  show ?thesis
  proof (cases "a < 0")
    case True
    then have "- x = of_int \<bar>a\<bar> / of_int b" by (simp add: x)
    with True neg q1 have "roundHalfAway x = - q1" by (simp add: roundHalfAway_def)
    with True fs ParseInt_utoa(2) [OF nn] nn show ?thesis
      by (simp add: clampInt64_def min_def max_def)
  next
    case False
    then have "x = of_int \<bar>a\<bar> / of_int b" by (simp add: x)
    with False neg q1 have "roundHalfAway x = q1" by (simp add: roundHalfAway_def)
    with False fs ParseInt_utoa(1) [OF nn] nn show ?thesis
      by (simp add: clampInt64_def min_def max_def)
  qed
qed

lemma clampInt64_range: "- (2 ^ 63) \<le> clampInt64 v" "clampInt64 v < 2 ^ 63"
  by (simp_all add: clampInt64_def)

lemma weiToShannonInt64_value:
  "sint (weiToShannonInt64 wei) = clampInt64 (roundHalfAway (wei / 10 ^ 9))"
proof -
  have "weiToShannonInt64 wei = word_of_int (clampInt64 (roundHalfAway (wei / 10 ^ 9)))"
    using FloatString0_ParseInt [of "wei / 10 ^ 9"]
    by (cases "ParseInt (FloatString0 (wei / 10 ^ 9)) 10")
      (simp add: weiToShannonInt64_def Shannon_def Let_def)
  then show ?thesis
    using clampInt64_range [of "roundHalfAway (wei / 10 ^ 9)"]
    by (simp add: sint_sbintrunc' signed_take_bit_int_eq_self)
qed

lemma roundHalfAway_error: "\<bar>of_int (roundHalfAway x) - x\<bar> \<le> 1 / 2"
proof (cases "x < 0")
  case True
  define g where "g = \<lfloor>- x + 1 / 2\<rfloor>"
  have "of_int g \<le> - x + 1 / 2" "- x + 1 / 2 < of_int g + 1"
    unfolding g_def by linarith+
  then have "\<bar>- of_int g - x\<bar> \<le> 1 / 2" by linarith
  with True show ?thesis by (simp only: roundHalfAway_def g_def if_True of_int_minus)
next
  case False
  define f where "f = \<lfloor>x + 1 / 2\<rfloor>"
  have "of_int f \<le> x + 1 / 2" "x + 1 / 2 < of_int f + 1"
    unfolding f_def by linarith+
  then have "\<bar>of_int f - x\<bar> \<le> 1 / 2" by linarith
  with False show ?thesis by (simp only: roundHalfAway_def f_def if_False)
qed


lemma calculateRewardsForShares_loop_other:
  "calculateRewardsForShares_loop shares tot reward rw pc = Some (rw', pc') \<Longrightarrow>
   login \<notin> fst ` set shares \<Longrightarrow> rw' login = rw login \<and> pc' login = pc login"
proof (induction shares arbitrary: rw pc)
  case Nil
  then show ?case by simp
next
  case (Cons s shares)
  obtain l n where s: "s = (l, n)" by (cases s)
  with Cons.prems have l: "l \<noteq> login" and r: "login \<notin> fst ` set shares" by auto
  from Cons.prems(1) s obtain rw1 pc1 where
    "calculateRewardsForShares_loop shares tot reward rw1 pc1 = Some (rw', pc')"
    "rw1 login = rw login" "pc1 login = pc login"
    using l by (auto simp: Let_def addReward_def split: if_splits)
  with Cons.IH [OF _ r] show ?case by metis
qed

lemma calculateRewardsForShares_loop_total:
  "tot \<noteq> 0 \<Longrightarrow> \<exists>rw' pc'. calculateRewardsForShares_loop shares tot reward rw pc = Some (rw', pc')"
  by (induction shares arbitrary: rw pc) (auto simp: Let_def)

lemma calculateRewardsForShares_loop_entry:
  "calculateRewardsForShares_loop shares tot reward rw pc = Some (rw', pc') \<Longrightarrow>
   distinct (map fst shares) \<Longrightarrow> (login, n) \<in> set shares \<Longrightarrow> rw login = None \<Longrightarrow>
   rw' login = Some (weiToShannonInt64 (reward * Fract (sint n) (sint tot)))
   \<and> pc' login = Some (Fract (sint n) (sint tot))"
proof (induction shares arbitrary: rw pc)
  case Nil
  then show ?case by simp
next
  case (Cons s shares)
  obtain l m where s: "s = (l, m)" by (cases s)
  from Cons.prems(1) s have tot: "tot \<noteq> 0" by (auto split: if_splits)
  let ?p = "Fract (sint m) (sint tot)"
  let ?rw1 = "addReward rw l (weiToShannonInt64 (reward * ?p))"
  let ?pc1 = "pc(l \<mapsto> ?p)"
  from Cons.prems(1) s tot have run:
    "calculateRewardsForShares_loop shares tot reward ?rw1 ?pc1 = Some (rw', pc')"
    by (simp add: Let_def)
  show ?case
  proof (cases "l = login")
    case True
    with Cons.prems(2,3) s have "m = n" and nk: "login \<notin> fst ` set shares"
      by (auto simp: rev_image_eqI)
    from calculateRewardsForShares_loop_other [OF run nk] True Cons.prems(4) \<open>m = n\<close>
    show ?thesis by (simp add: addReward_def)
  next
    case False
    with Cons.prems(3) s have "(login, n) \<in> set shares" by auto
    moreover from Cons.prems(2) have "distinct (map fst shares)" by simp
    moreover from False Cons.prems(4) have "?rw1 login = None" by (simp add: addReward_def)
    ultimately show ?thesis using Cons.IH [OF run] by blast
  qed
qed

text \<open>
  C1, as the code has it. For a share map with each login once and a total that is not 0,
  \<^verbatim>\<open>calculateRewardsForShares\<close> returns, for every miner \<open>login\<close> with \<open>n\<close> shares, the
  exact percentage \<open>n / tot\<close> and as credited amount the wei amount
  \<open>reward \<cdot> n / tot\<close> divided by \<open>10\<^sup>9\<close> and rounded to the nearest integer, halves away
  from zero (and brought into the \<^verbatim>\<open>int64\<close> range by \<^verbatim>\<open>strconv.ParseInt\<close>). The
  percentage and the product are exact; the rounding is off by at most half a Shannon.
\<close>

theorem calculateRewardsForShares_rounds_to_nearest:
  assumes "distinct (map fst shares)" and "tot \<noteq> 0" and "(login, n) \<in> set shares"
  shows "\<exists>rewards percents.
           calculateRewardsForShares shares tot reward = Some (rewards, percents)
           \<and> percents login = Some (Fract (sint n) (sint tot))
           \<and> (\<exists>r. rewards login = Some r
                \<and> sint r = clampInt64 (roundHalfAway (reward * Fract (sint n) (sint tot) / 10 ^ 9)))
           \<and> \<bar>of_int (roundHalfAway (reward * Fract (sint n) (sint tot) / 10 ^ 9))
                - reward * Fract (sint n) (sint tot) / 10 ^ 9\<bar> \<le> 1 / 2"
proof -
  from calculateRewardsForShares_loop_total [OF assms(2)] obtain rewards percents where
    run: "calculateRewardsForShares_loop shares tot reward Map.empty Map.empty = Some (rewards, percents)"
    by blast
  from calculateRewardsForShares_loop_entry [OF run assms(1,3)]
  have "rewards login = Some (weiToShannonInt64 (reward * Fract (sint n) (sint tot)))"
    "percents login = Some (Fract (sint n) (sint tot))"
    by simp_all
  with run roundHalfAway_error [of "reward * Fract (sint n) (sint tot) / 10 ^ 9"]
  show ?thesis
    by (simp add: calculateRewardsForShares_def weiToShannonInt64_value)
qed

theorem calculateRewardsForShares_rounds_to_nearest_witness:
  "distinct (map fst [(''a'', 70 :: int64), (''b'', 30)]) \<and> (100 :: int64) \<noteq> 0
   \<and> (''a'', 70) \<in> set [(''a'', 70 :: int64), (''b'', 30)]
   \<and> (\<exists>rewards percents.
         calculateRewardsForShares [(''a'', 70), (''b'', 30)] 100 990000000000000000 =
           Some (rewards, percents)
         \<and> percents ''a'' = Some (7 / 10)
         \<and> (\<exists>r. rewards ''a'' = Some r \<and> sint r = 693000000))"
proof -
  have d: "distinct (map fst [(''a'', 70 :: int64), (''b'', 30)])" by simp
  have t: "(100 :: int64) \<noteq> 0" by simp
  have m: "(''a'', 70) \<in> set [(''a'', 70 :: int64), (''b'', 30)]" by simp
  have p: "Fract (sint (70 :: int64)) (sint (100 :: int64)) = 7 / 10"
    by code_simp
  have v: "clampInt64 (roundHalfAway (990000000000000000 * (7 / 10) / 10 ^ 9)) = 693000000"
    by code_simp
  from calculateRewardsForShares_rounds_to_nearest [OF d t m, of 990000000000000000] d t m
  show ?thesis
    unfolding p v by blast
qed

text \<open>
  C1 as stated fails: the conversion does not round toward zero. Two miners with one share
  each of a reward of \<open>3 \<cdot> 10\<^sup>9\<close> wei have 1.5 Shannon each; the code credits 2 Shannon
  to each of them, where rounding toward zero gives 1.
\<close>

theorem weiToShannonInt64_rounds_half_up:
  "case calculateRewardsForShares [(''a'', 1), (''b'', 1)] 2 3000000000 of
     None \<Rightarrow> False
   | Some (rewards, percents) \<Rightarrow>
       percents ''a'' = Some (1 / 2) \<and> rewards ''a'' = Some 2 \<and> rewards ''b'' = Some 2
       \<and> truncateTowardZero (3000000000 * (1 / 2) / 10 ^ 9) = 1"
  by code_simp

subsection \<open>The fee split\<close>






end
